theory Spec2Isabelle
  imports Complex_Main "HOL-Library.Multiset"
begin

section \<open>The ordering and reconciliation core of \<^verbatim>\<open>src/hooks/useInstances.ts\<close>\<close>

subsection \<open>Entities\<close>

text \<open>
  \<^verbatim>\<open>T extends { id: string }\<close>: any record that carries an \<^verbatim>\<open>id\<close>. The field is
  written \<open>id'\<close> because \<open>id\<close> is the identity function of HOL. The type
  \<open>'a entity_scheme\<close> is a record with an \<open>id'\<close> and any further fields; the literal
  \<^verbatim>\<open>{ id }\<close> of the reorder functions is the plain \<open>entity\<close>.
\<close>

record entity =
  id' :: string

subsection \<open>\<^verbatim>\<open>Array.prototype.sort\<close> with a comparator\<close>

text \<open>
  ECMAScript fixes the result of \<^verbatim>\<open>sort(comparefn)\<close> for a consistent comparator: the
  elements in ascending order of the comparator, equal elements in their original order
  (the sort is stable). Insertion from the right end computes exactly that list:
  an element is put in front of the first element it does not exceed, so in front of its
  equals, which all stood behind it.
\<close>

fun insertBy :: "('a \<Rightarrow> 'a \<Rightarrow> int) \<Rightarrow> 'a \<Rightarrow> 'a list \<Rightarrow> 'a list" where
  "insertBy cmp x [] = [x]"
| "insertBy cmp x (y # ys) = (if cmp x y \<le> 0 then x # y # ys else y # insertBy cmp x ys)"

definition sortBy :: "('a \<Rightarrow> 'a \<Rightarrow> int) \<Rightarrow> 'a list \<Rightarrow> 'a list" where
  "sortBy cmp xs = foldr (insertBy cmp) xs []"

subsection \<open>\<^verbatim>\<open>applySavedOrder\<close>\<close>

text \<open>
  The function at its declared type, \<^verbatim>\<open>savedOrder: string[]\<close>; what the same lines do
  with a value of another shape follows below, after the values the hook can meet.

  \<^verbatim>\<open>savedOrder.map((id, idx) => [id, idx])\<close>: every element paired with its index.
\<close>

fun entriesFrom :: "nat \<Rightarrow> 'k list \<Rightarrow> ('k \<times> nat) list" where
  "entriesFrom i [] = []"
| "entriesFrom i (k # ks) = (k, i) # entriesFrom (Suc i) ks"

text \<open>
  \<^verbatim>\<open>new Map(entries)\<close> sets the entries one after the other, so a key that occurs again
  overwrites its earlier value.
\<close>

definition newMap :: "('k \<times> nat) list \<Rightarrow> ('k \<rightharpoonup> nat)" where
  "newMap kvs = fold (\<lambda>kv m. m(fst kv \<mapsto> snd kv)) kvs Map.empty"

text \<open>The comparator handed to \<^verbatim>\<open>sort\<close>, with \<^verbatim>\<open>undefined\<close> as \<open>None\<close>.\<close>

definition compareFn :: "(string \<rightharpoonup> nat) \<Rightarrow> 'a entity_scheme \<Rightarrow> 'a entity_scheme \<Rightarrow> int" where
  "compareFn orderMap a b =
     (case (orderMap (id' a), orderMap (id' b)) of
        (Some ia, Some ib) \<Rightarrow> int ia - int ib
      | (Some ia, None) \<Rightarrow> - 1
      | (None, Some ib) \<Rightarrow> 1
      | (None, None) \<Rightarrow> 0)"

definition applySavedOrder :: "'a entity_scheme list \<Rightarrow> string list \<Rightarrow> 'a entity_scheme list" where
  "applySavedOrder items savedOrder =
     (if length savedOrder = 0 then items
      else let orderMap = newMap (entriesFrom 0 savedOrder)
           in sortBy (compareFn orderMap) items)"

subsection \<open>The persisted order store\<close>

text \<open>
  \<^verbatim>\<open>JSON.parse\<close> returns a value of any JSON shape or throws; its declared type is
  \<^verbatim>\<open>any\<close>. The values it can return:
\<close>

datatype json =
    JNull
  | JBool bool
  | JNum real
  | JStr string
  | JArr "json list"
  | JObj "(string \<times> json) list"

text \<open>
  The two built-ins are parameters of the model: \<open>parse\<close> gives \<open>None\<close> where
  \<^verbatim>\<open>JSON.parse\<close> throws a SyntaxError, \<open>stringify\<close> is \<^verbatim>\<open>JSON.stringify\<close>.
\<close>

record JSON =
  parse :: "string \<Rightarrow> json option"
  stringify :: "json \<Rightarrow> string"

definition HOST_ORDER_KEY :: string where
  "HOST_ORDER_KEY = ''solar_host_order''"

definition INSTANCE_ORDER_KEY_PREFIX :: string where
  "INSTANCE_ORDER_KEY_PREFIX = ''solar_instance_order_''"

text \<open>
  \<^verbatim>\<open>localStorage\<close> is a map from keys to texts: \<^verbatim>\<open>getItem\<close> of a key that is not
  there is \<^verbatim>\<open>null\<close>, here \<open>None\<close>. \<^verbatim>\<open>if (raw)\<close> fails for \<^verbatim>\<open>null\<close> and for the
  empty text. The \<^verbatim>\<open>catch\<close> swallows the SyntaxError. The value returned is whatever
  \<^verbatim>\<open>JSON.parse\<close> produced: the annotation \<^verbatim>\<open>string[]\<close> is not checked when the
  program runs.
\<close>

definition readHostOrder :: "JSON \<Rightarrow> (string \<rightharpoonup> string) \<Rightarrow> json" where
  "readHostOrder J storage =
     (case storage HOST_ORDER_KEY of
        Some raw \<Rightarrow>
          (if raw \<noteq> [] then (case parse J raw of Some v \<Rightarrow> v | None \<Rightarrow> JArr [])
           else JArr [])
      | None \<Rightarrow> JArr [])"


definition readInstanceOrder :: "JSON \<Rightarrow> string \<Rightarrow> (string \<rightharpoonup> string) \<Rightarrow> json" where
  "readInstanceOrder J hostId storage =
     (case storage (INSTANCE_ORDER_KEY_PREFIX @ hostId) of
        Some raw \<Rightarrow>
          (if raw \<noteq> [] then (case parse J raw of Some v \<Rightarrow> v | None \<Rightarrow> JArr [])
           else JArr [])
      | None \<Rightarrow> JArr [])"


subsection \<open>Values outside the declared type\<close>

text \<open>
  Nothing but the annotation \<^verbatim>\<open>string[]\<close> says that a saved order is an array of
  strings. What the hook hands to \<^verbatim>\<open>applySavedOrder\<close> is a value \<^verbatim>\<open>JSON.parse\<close>
  produced, an array of strings the hook made itself, or a property that the plain object
  caching the instance orders inherits from \<^verbatim>\<open>Object.prototype\<close>: a built-in function,
  kept here with its \<^verbatim>\<open>length\<close>, or, under the name \<^verbatim>\<open>__proto__\<close>, the prototype
  object itself.
\<close>

datatype jsValue =
    Json json
  | BuiltinFunction nat
  | ObjectPrototype

datatype typeError = TypeError

text \<open>
  \<^verbatim>\<open>savedOrder.length === 0\<close>. Reading a property of \<^verbatim>\<open>null\<close> throws; a boolean, a
  number and the prototype object have no \<^verbatim>\<open>length\<close>; a string and an array have their
  own; an object that \<^verbatim>\<open>JSON.parse\<close> built has the \<^verbatim>\<open>length\<close> its text gave it, if
  any (\<open>JObj\<close> lists the properties of the object, each name once).
\<close>

fun lengthIsZero :: "jsValue \<Rightarrow> typeError + bool" where
  "lengthIsZero (Json JNull) = Inl TypeError"
| "lengthIsZero (Json (JBool b)) = Inr False"
| "lengthIsZero (Json (JNum r)) = Inr False"
| "lengthIsZero (Json (JStr s)) = Inr (length s = 0)"
| "lengthIsZero (Json (JArr xs)) = Inr (length xs = 0)"
| "lengthIsZero (Json (JObj ps)) = Inr (map_of ps ''length'' = Some (JNum 0))"
| "lengthIsZero (BuiltinFunction n) = Inr (n = 0)"
| "lengthIsZero ObjectPrototype = Inr False"

text \<open>
  Lines 40 to 53 on any such value. Past the test of the length, \<^verbatim>\<open>savedOrder.map\<close> is
  a function for an array alone: the call throws for every other value. The elements of
  an array are the keys of the map, whatever they are, and \<^verbatim>\<open>orderMap.get(a.id)\<close> finds
  the index of a key that is the string \<^verbatim>\<open>a.id\<close>.
\<close>

definition applySavedOrderJS ::
  "'a entity_scheme list \<Rightarrow> jsValue \<Rightarrow> typeError + 'a entity_scheme list" where
  "applySavedOrderJS items savedOrder =
     (case lengthIsZero savedOrder of
        Inl e \<Rightarrow> Inl e
      | Inr True \<Rightarrow> Inr items
      | Inr False \<Rightarrow>
          (case savedOrder of
             Json (JArr keys) \<Rightarrow>
               (let orderMap = newMap (entriesFrom 0 keys)
                in Inr (sortBy (compareFn (\<lambda>i. orderMap (JStr i))) items))
           | _ \<Rightarrow> Inl TypeError))"

text \<open>
  The properties a plain object inherits from \<^verbatim>\<open>Object.prototype\<close> (ECMAScript 20.1.3
  and B.2.2), the functions with their lengths.
\<close>

definition Object_prototype :: "string \<Rightarrow> jsValue option" where
  "Object_prototype =
     map_of
       [(''constructor'', BuiltinFunction 1),
        (''hasOwnProperty'', BuiltinFunction 1),
        (''isPrototypeOf'', BuiltinFunction 1),
        (''propertyIsEnumerable'', BuiltinFunction 1),
        (''toLocaleString'', BuiltinFunction 0),
        (''toString'', BuiltinFunction 0),
        (''valueOf'', BuiltinFunction 0),
        (''__defineGetter__'', BuiltinFunction 2),
        (''__defineSetter__'', BuiltinFunction 2),
        (''__lookupGetter__'', BuiltinFunction 1),
        (''__lookupSetter__'', BuiltinFunction 1),
        (''__proto__'', ObjectPrototype)]"

subsection \<open>Hosts, instances, the overlay and the adapter\<close>

text \<open>
  Modelled from the spec: the declarations of \<^verbatim>\<open>Host\<close> and \<^verbatim>\<open>Instance\<close>
  (\<^verbatim>\<open>@/api/types\<close>) are not among the sources. A host has an identifier, a display name,
  a status and a resource metric, the memory; the hook reads \<^verbatim>\<open>id\<close>, \<^verbatim>\<open>name\<close>,
  \<^verbatim>\<open>status\<close> and \<^verbatim>\<open>memory\<close>. The memory is a value the adapter or the push channel
  delivered, a JSON value, or missing (\<open>None\<close> for \<^verbatim>\<open>undefined\<close>). Every further field
  of a host is kept in the extension part of the record (\<open>'z\<close>). An instance is any
  record with an \<open>id'\<close>.
\<close>

record Host = entity +
  name :: string
  status :: string
  memory :: "json option"

record 'i HostWithInstances = Host +
  instances :: "'i entity_scheme list"

text \<open>\<^verbatim>\<open>{ ...host, instances }\<close>\<close>

definition withInstances ::
  "'z Host_scheme \<Rightarrow> 'i entity_scheme list \<Rightarrow> ('i, 'z) HostWithInstances_scheme" where
  "withInstances host is =
     \<lparr>id' = id' host, name = name host, status = status host, memory = memory host,
      instances = is, \<dots> = Host.more host\<rparr>"

text \<open>
  Modelled from the spec: an entry of the live status overlay (\<^verbatim>\<open>hostStatuses\<close> of
  \<^verbatim>\<open>@/context/RoutingEventsContext\<close>, not among the sources) is a partial status
  snapshot, a status and a metric. Its fields \<^verbatim>\<open>status\<close> and \<^verbatim>\<open>memory\<close> are written
  \<open>ws_status\<close> and \<open>ws_memory\<close> here, apart from the host's own.
\<close>

record HostStatusEntry =
  ws_status :: string
  ws_memory :: "json option"

text \<open>
  What \<^verbatim>\<open>||\<close> tests, ECMAScript's ToBoolean: \<^verbatim>\<open>undefined\<close>, \<^verbatim>\<open>null\<close>,
  \<^verbatim>\<open>false\<close>, zero and the empty string are falsy, every other value is truthy.
\<close>

fun toBoolean :: "json option \<Rightarrow> bool" where
  "toBoolean None = False"
| "toBoolean (Some JNull) = False"
| "toBoolean (Some (JBool b)) = b"
| "toBoolean (Some (JNum r)) = (r \<noteq> 0)"
| "toBoolean (Some (JStr s)) = (s \<noteq> [])"
| "toBoolean (Some (JArr xs)) = True"
| "toBoolean (Some (JObj ps)) = True"

text \<open>
  What a failing call throws: an \<^verbatim>\<open>Error\<close> with its message, or any other value.
  \<open>messageOr\<close> is \<^verbatim>\<open>err instanceof Error ? err.message : fallback\<close>.
\<close>

datatype thrown = Error string | NonError

fun messageOr :: "thrown \<Rightarrow> string \<Rightarrow> string" where
  "messageOr (Error message) fallback = message"
| "messageOr NonError fallback = fallback"

text \<open>
  The data source adapter \<^verbatim>\<open>solarClient\<close> is outside the hook: the model takes the
  outcome of each of its calls as given, \<open>Inl\<close> for a rejected promise.
\<close>

record ('i, 'z) solarClient =
  client_getHosts :: "thrown + 'z Host_scheme list"
  client_getHostInstances :: "string \<Rightarrow> thrown + 'i entity_scheme list"
  client_startInstance :: "string \<Rightarrow> string \<Rightarrow> thrown + unit"
  client_stopInstance :: "string \<Rightarrow> string \<Rightarrow> thrown + unit"
  client_restartInstance :: "string \<Rightarrow> string \<Rightarrow> thrown + unit"

datatype request =
    GetHosts
  | GetHostInstances string
  | StartInstance string string
  | StopInstance string string
  | RestartInstance string string

subsection \<open>The state of the hook\<close>

text \<open>
  The five \<^verbatim>\<open>useState\<close> cells, the browser's \<^verbatim>\<open>localStorage\<close>, and the calls made to
  the adapter so far, oldest first. Each operation is one transition of this state: the
  model follows a single invocation from start to end, with no other invocation in
  between, and a state update is visible at once. The host order is the value
  \<^verbatim>\<open>readHostOrder\<close> returned, whatever its shape, until a move replaces it by an array of
  strings. The cache of the instance orders is a plain object; \<open>instanceOrders\<close> holds its
  own properties, which are arrays of strings the hook made.
\<close>

record ('i, 'z) state =
  hosts :: "('i, 'z) HostWithInstances_scheme list"
  loading :: bool
  error :: "string option"
  hostOrder :: json
  instanceOrders :: "string \<rightharpoonup> string list"
  localStorage :: "string \<rightharpoonup> string"
  requests :: "request list"

text \<open>The initial values of the cells; \<^verbatim>\<open>useState<string[]>(readHostOrder)\<close>.\<close>

definition initialState :: "JSON \<Rightarrow> (string \<rightharpoonup> string) \<Rightarrow> ('i, 'z) state" where
  "initialState J storage =
     \<lparr>hosts = [], loading = True, error = None, hostOrder = readHostOrder J storage,
      instanceOrders = Map.empty, localStorage = storage, requests = []\<rparr>"

subsection \<open>\<^verbatim>\<open>fetchData\<close>, exposed as \<^verbatim>\<open>refresh\<close>\<close>

text \<open>
  The callback of \<^verbatim>\<open>hostsData.map\<close>: its own \<^verbatim>\<open>try\<close>/\<^verbatim>\<open>catch\<close> turns a failed
  fetch of the instances into the empty list, so the promise it returns never rejects.
\<close>

definition fetchInstancesOf ::
  "('i, 'z) solarClient \<Rightarrow> 'z Host_scheme \<Rightarrow> ('i, 'z) HostWithInstances_scheme" where
  "fetchInstancesOf client host =
     (case client_getHostInstances client (id' host) of
        Inr is \<Rightarrow> withInstances host is
      | Inl err \<Rightarrow> withInstances host [])"

text \<open>
  \<^verbatim>\<open>setError(null)\<close> comes first. The callbacks start their requests in the order of the
  hosts and \<^verbatim>\<open>Promise.all\<close> keeps that order in its result. \<^verbatim>\<open>finally\<close> clears the
  loading flag on both paths. What \<^verbatim>\<open>console.error\<close> prints is not part of the state.
\<close>

definition fetchData :: "('i, 'z) solarClient \<Rightarrow> ('i, 'z) state \<Rightarrow> ('i, 'z) state" where
  "fetchData client st =
     (let st1 = st\<lparr>error := None, requests := requests st @ [GetHosts]\<rparr>
      in case client_getHosts client of
           Inr hostsData \<Rightarrow>
             (let hostsWithInstances = map (fetchInstancesOf client) hostsData
              in st1\<lparr>hosts := hostsWithInstances,
                     requests := requests st1 @ map (\<lambda>host. GetHostInstances (id' host)) hostsData,
                     loading := False\<rparr>)
         | Inl err \<Rightarrow>
             st1\<lparr>error := Some (messageOr err ''Failed to fetch data''), loading := False\<rparr>)"

subsection \<open>\<^verbatim>\<open>startInstance\<close>, \<^verbatim>\<open>stopInstance\<close>, \<^verbatim>\<open>restartInstance\<close>\<close>

text \<open>
  Each returns the outcome for its caller, \<open>Inl\<close> for the \<^verbatim>\<open>Error\<close> it throws, and the
  state it leaves. \<open>fetchData\<close> has no failing outcome, so the \<^verbatim>\<open>catch\<close> is reached from
  the adapter's action alone.
\<close>

definition startInstance ::
  "('i, 'z) solarClient \<Rightarrow> string \<Rightarrow> string \<Rightarrow> ('i, 'z) state \<Rightarrow> (thrown + unit) \<times> ('i, 'z) state" where
  "startInstance client hostId instanceId st =
     (let st1 = st\<lparr>requests := requests st @ [StartInstance hostId instanceId]\<rparr>
      in case client_startInstance client hostId instanceId of
           Inr u \<Rightarrow> (Inr (), fetchData client st1)
         | Inl err \<Rightarrow> (Inl (Error (messageOr err ''Failed to start instance'')), st1))"

definition stopInstance ::
  "('i, 'z) solarClient \<Rightarrow> string \<Rightarrow> string \<Rightarrow> ('i, 'z) state \<Rightarrow> (thrown + unit) \<times> ('i, 'z) state" where
  "stopInstance client hostId instanceId st =
     (let st1 = st\<lparr>requests := requests st @ [StopInstance hostId instanceId]\<rparr>
      in case client_stopInstance client hostId instanceId of
           Inr u \<Rightarrow> (Inr (), fetchData client st1)
         | Inl err \<Rightarrow> (Inl (Error (messageOr err ''Failed to stop instance'')), st1))"

definition restartInstance ::
  "('i, 'z) solarClient \<Rightarrow> string \<Rightarrow> string \<Rightarrow> ('i, 'z) state \<Rightarrow> (thrown + unit) \<times> ('i, 'z) state" where
  "restartInstance client hostId instanceId st =
     (let st1 = st\<lparr>requests := requests st @ [RestartInstance hostId instanceId]\<rparr>
      in case client_restartInstance client hostId instanceId of
           Inr u \<Rightarrow> (Inr (), fetchData client st1)
         | Inl err \<Rightarrow> (Inl (Error (messageOr err ''Failed to restart instance'')), st1))"

subsection \<open>\<^verbatim>\<open>moveHost\<close> and \<^verbatim>\<open>moveInstance\<close>\<close>






text \<open>
  \<^verbatim>\<open>instanceOrders[hostId] ?? readInstanceOrder(hostId)\<close>. The property read finds an own
  property of the cache, or else one inherited from \<^verbatim>\<open>Object.prototype\<close>; only when
  there is neither is it \<^verbatim>\<open>undefined\<close>, and \<^verbatim>\<open>??\<close> reads the store.
\<close>

definition instanceOrderOf :: "JSON \<Rightarrow> ('i, 'z) state \<Rightarrow> string \<Rightarrow> jsValue" where
  "instanceOrderOf J st hostId =
     (case instanceOrders st hostId of
        Some order \<Rightarrow> Json (JArr (map JStr order))
      | None \<Rightarrow>
          (case Object_prototype hostId of
             Some inherited \<Rightarrow> inherited
           | None \<Rightarrow> Json (readInstanceOrder J hostId (localStorage st))))"


subsection \<open>The effective view, \<^verbatim>\<open>mergedHosts\<close>\<close>

text \<open>\<^verbatim>\<open>hostStatuses?.get(host.id)\<close>; the overlay itself may be missing.\<close>

definition overlayEntry ::
  "(string \<rightharpoonup> HostStatusEntry) option \<Rightarrow> string \<Rightarrow> HostStatusEntry option" where
  "overlayEntry hostStatuses hostId =
     (case hostStatuses of None \<Rightarrow> None | Some entries \<Rightarrow> entries hostId)"

text \<open>
  The callback of \<^verbatim>\<open>hosts.map\<close>, given the overlay entry and the saved instance order it
  looked up. \<^verbatim>\<open>wsStatus.memory || host.memory\<close> is the memory of the entry when that is
  truthy and the memory of the host otherwise.
\<close>

definition mergeHost ::
  "HostStatusEntry option \<Rightarrow> jsValue \<Rightarrow> ('i, 'z) HostWithInstances_scheme
     \<Rightarrow> typeError + ('i, 'z) HostWithInstances_scheme" where
  "mergeHost wsStatus savedInstanceOrder host =
     (let base =
            (case wsStatus of
               Some w \<Rightarrow>
                 host\<lparr>status := ws_status w,
                      memory := (if toBoolean (ws_memory w) then ws_memory w else memory host)\<rparr>
             | None \<Rightarrow> host)
      in case applySavedOrderJS (instances base) savedInstanceOrder of
           Inl e \<Rightarrow> Inl e
         | Inr sortedInstances \<Rightarrow> Inr (base\<lparr>instances := sortedInstances\<rparr>))"

text \<open>\<^verbatim>\<open>map\<close> with a callback that may throw: the first exception ends it.\<close>

fun mapResult :: "('a \<Rightarrow> typeError + 'b) \<Rightarrow> 'a list \<Rightarrow> typeError + 'b list" where
  "mapResult f [] = Inr []"
| "mapResult f (x # xs) =
     (case f x of
        Inl e \<Rightarrow> Inl e
      | Inr y \<Rightarrow> (case mapResult f xs of Inl e \<Rightarrow> Inl e | Inr ys \<Rightarrow> Inr (y # ys)))"

definition mergedHosts ::
  "JSON \<Rightarrow> (string \<rightharpoonup> HostStatusEntry) option \<Rightarrow> ('i, 'z) state
     \<Rightarrow> typeError + ('i, 'z) HostWithInstances_scheme list" where
  "mergedHosts J hostStatuses st =
     (case mapResult
             (\<lambda>host. mergeHost (overlayEntry hostStatuses (id' host))
                       (instanceOrderOf J st (id' host)) host)
             (hosts st) of
        Inl e \<Rightarrow> Inl e
      | Inr result \<Rightarrow> applySavedOrderJS result (Json (hostOrder st)))"

subsection \<open>Values for the examples\<close>

text \<open>
  Two hosts, the first with three instances, and an adapter that serves them: the fetch
  of the instances of \<open>B\<close> fails, and so do the start and the stop of an instance.
\<close>

definition hostA :: Host where
  "hostA = \<lparr>id' = ''A'', name = ''alpha'', status = ''online'', memory = Some (JNum 16)\<rparr>"

definition hostB :: Host where
  "hostB = \<lparr>id' = ''B'', name = ''beta'', status = ''online'', memory = None\<rparr>"

definition instancesA :: "entity list" where
  "instancesA = [\<lparr>id' = ''i1''\<rparr>, \<lparr>id' = ''i2''\<rparr>, \<lparr>id' = ''i3''\<rparr>]"

definition clientAB :: "(unit, unit) solarClient" where
  "clientAB =
     \<lparr>client_getHosts = Inr [hostA, hostB],
      client_getHostInstances =
        (\<lambda>hostId. if hostId = ''A'' then Inr instancesA else Inl (Error ''timeout'')),
      client_startInstance = (\<lambda>hostId instanceId. Inl (Error ''connection refused'')),
      client_stopInstance = (\<lambda>hostId instanceId. Inl NonError),
      client_restartInstance = (\<lambda>hostId instanceId. Inr ())\<rparr>"

definition clientDown :: "(unit, unit) solarClient" where
  "clientDown = clientAB\<lparr>client_getHosts := Inl (Error ''network down'')\<rparr>"

text \<open>
  An adapter whose fetch of the host list throws a value that is no \<^verbatim>\<open>Error\<close>, whose
  start and stop succeed and whose restart fails.
\<close>

definition clientOdd :: "(unit, unit) solarClient" where
  "clientOdd =
     clientAB\<lparr>client_getHosts := Inl NonError,
              client_startInstance := (\<lambda>hostId instanceId. Inr ()),
              client_stopInstance := (\<lambda>hostId instanceId. Inr ()),
              client_restartInstance := (\<lambda>hostId instanceId. Inl (Error ''busy''))\<rparr>"

definition state0 :: "(unit, unit) state" where
  "state0 =
     \<lparr>hosts = [], loading = True, error = None, hostOrder = JArr [],
      instanceOrders = Map.empty, localStorage = Map.empty, requests = []\<rparr>"

definition stateAB :: "(unit, unit) state" where
  "stateAB =
     \<lparr>hosts = [withInstances hostA instancesA, withInstances hostB []],
      loading = False, error = None, hostOrder = JArr [],
      instanceOrders = [''A'' \<mapsto> [''i1'', ''i2'', ''i3'']],
      localStorage = Map.empty, requests = []\<rparr>"

text \<open>
  The two built-ins for the examples. \<open>stringify\<close> is \<^verbatim>\<open>JSON.stringify\<close> on arrays of
  strings that need no escape. \<open>parse\<close> is \<^verbatim>\<open>JSON.parse\<close> on the four texts it lists,
  the empty object, the empty array, the array of the numbers 1 and 2 and the array of
  the strings \<open>c2\<close> and \<open>c1\<close>, and on every text that is no JSON; the examples give it no
  other text.
\<close>

definition quoted :: "string \<Rightarrow> string" where
  "quoted s = CHR 0x22 # s @ [CHR 0x22]"

fun commaSeparated :: "string list \<Rightarrow> string" where
  "commaSeparated [] = []"
| "commaSeparated [x] = x"
| "commaSeparated (x # y # ys) = x @ '','' @ commaSeparated (y # ys)"

fun strings :: "json list \<Rightarrow> string list option" where
  "strings [] = Some []"
| "strings (JStr s # js) = (case strings js of Some ss \<Rightarrow> Some (s # ss) | None \<Rightarrow> None)"
| "strings (j # js) = None"

definition textC2C1 :: string where
  "textC2C1 = ''['' @ quoted ''c2'' @ '','' @ quoted ''c1'' @ '']''"

definition exampleJSON :: JSON where
  "exampleJSON =
     \<lparr>parse = (\<lambda>raw. if raw = ''{}'' then Some (JObj [])
                    else if raw = ''[]'' then Some (JArr [])
                    else if raw = ''[1,2]'' then Some (JArr [JNum 1, JNum 2])
                    else if raw = textC2C1 then Some (JArr [JStr ''c2'', JStr ''c1''])
                    else None),
      stringify = (\<lambda>j. case j of
                          JArr js \<Rightarrow> (case strings js of
                                       Some ss \<Rightarrow> ''['' @ commaSeparated (map quoted ss) @ '']''
                                     | None \<Rightarrow> [])
                        | _ \<Rightarrow> [])\<rparr>"

text \<open>
  A store whose order keys hold the text of the empty object, and one whose order keys
  hold a text that is no JSON.
\<close>

definition corruptStorage :: "string \<rightharpoonup> string" where
  "corruptStorage = [HOST_ORDER_KEY \<mapsto> ''{}'', INSTANCE_ORDER_KEY_PREFIX @ ''B'' \<mapsto> ''{}'']"

definition unparsableStorage :: "string \<rightharpoonup> string" where
  "unparsableStorage = [HOST_ORDER_KEY \<mapsto> ''[oops'', INSTANCE_ORDER_KEY_PREFIX @ ''B'' \<mapsto> ''[oops'']"

text \<open>
  Three hosts for the moves. The saved host order names \<open>C\<close> and \<open>A\<close>, not \<open>B\<close>. The
  order of the instances of \<open>A\<close> is cached, and the store holds another one for it, the
  empty array; nothing is cached for \<open>B\<close> and \<open>C\<close>, and the store holds the array of the
  numbers 1 and 2 for \<open>B\<close> and the array of \<open>c2\<close> and \<open>c1\<close> for \<open>C\<close>.
\<close>

definition hostC :: Host where
  "hostC = \<lparr>id' = ''C'', name = ''gamma'', status = ''online'', memory = None\<rparr>"

definition instancesB :: "entity list" where
  "instancesB = [\<lparr>id' = ''j1''\<rparr>, \<lparr>id' = ''j2''\<rparr>, \<lparr>id' = ''j3''\<rparr>]"

definition instancesC :: "entity list" where
  "instancesC = [\<lparr>id' = ''c1''\<rparr>, \<lparr>id' = ''c2''\<rparr>]"

definition storageABC :: "string \<rightharpoonup> string" where
  "storageABC =
     [INSTANCE_ORDER_KEY_PREFIX @ ''A'' \<mapsto> ''[]'',
      INSTANCE_ORDER_KEY_PREFIX @ ''B'' \<mapsto> ''[1,2]'',
      INSTANCE_ORDER_KEY_PREFIX @ ''C'' \<mapsto> textC2C1]"

definition stateABC :: "(unit, unit) state" where
  "stateABC =
     \<lparr>hosts = [withInstances hostA instancesA, withInstances hostB instancesB,
               withInstances hostC instancesC],
      loading = False, error = None, hostOrder = JArr [JStr ''C'', JStr ''A''],
      instanceOrders = [''A'' \<mapsto> [''i3'', ''i1'', ''i2'']],
      localStorage = storageABC, requests = []\<rparr>"

text \<open>
  A host whose identifier is the name of a property of \<^verbatim>\<open>Object.prototype\<close>, with one
  instance, and nothing cached or stored.
\<close>

definition hostK :: Host where
  "hostK = \<lparr>id' = ''constructor'', name = ''kappa'', status = ''online'', memory = None\<rparr>"

definition stateK :: "(unit, unit) state" where
  "stateK =
     \<lparr>hosts = [withInstances hostK [\<lparr>id' = ''k1''\<rparr>]],
      loading = False, error = None, hostOrder = JArr [],
      instanceOrders = Map.empty, localStorage = Map.empty, requests = []\<rparr>"

text \<open>
  A stopped host with memory 16 and two instances, a cached instance order that reverses
  them, and an overlay entry for the host that reports it running with the memory 0.
\<close>

definition hostH :: "unit HostWithInstances" where
  "hostH =
     \<lparr>id' = ''H'', name = ''eta'', status = ''stopped'', memory = Some (JNum 16),
      instances = [\<lparr>id' = ''i1''\<rparr>, \<lparr>id' = ''i2''\<rparr>]\<rparr>"

definition entryH :: HostStatusEntry where
  "entryH = \<lparr>ws_status = ''running'', ws_memory = Some (JNum 0)\<rparr>"

definition stateH :: "(unit, unit) state" where
  "stateH =
     \<lparr>hosts = [hostH], loading = False, error = None, hostOrder = JArr [],
      instanceOrders = [''H'' \<mapsto> [''i2'', ''i1'']],
      localStorage = Map.empty, requests = []\<rparr>"

text \<open>
  An overlay for the three hosts of the moves: an entry for \<open>A\<close> with a status and no
  memory, an entry for \<open>B\<close> with a status and the memory 32, and no entry for \<open>C\<close>.
\<close>

definition entryA :: HostStatusEntry where
  "entryA = \<lparr>ws_status = ''busy'', ws_memory = None\<rparr>"

definition entryB :: HostStatusEntry where
  "entryB = \<lparr>ws_status = ''running'', ws_memory = Some (JNum 32)\<rparr>"

definition overlayAB :: "string \<rightharpoonup> HostStatusEntry" where
  "overlayAB = [''A'' \<mapsto> entryA, ''B'' \<mapsto> entryB]"

subsection \<open>Notions used in the proofs\<close>

text \<open>
  The comparator of \<open>applySavedOrder\<close> compares two entities by one number each: the index
  the map holds for the identifier, or the length of the saved order where it holds none.
\<close>

definition rankOf :: "(string \<rightharpoonup> nat) \<Rightarrow> nat \<Rightarrow> 'a entity_scheme \<Rightarrow> nat" where
  "rankOf m n e = (case m (id' e) of Some i \<Rightarrow> i | None \<Rightarrow> n)"

definition orderRank :: "string list \<Rightarrow> 'a entity_scheme \<Rightarrow> nat" where
  "orderRank S = rankOf (newMap (entriesFrom 0 S)) (length S)"

text \<open>
  The same number for a saved order that is an array of any values: only a key that is
  the string of the identifier gives an index.
\<close>

definition keyRank :: "json list \<Rightarrow> 'a entity_scheme \<Rightarrow> nat" where
  "keyRank keys = rankOf (\<lambda>i. newMap (entriesFrom 0 keys) (JStr i)) (length keys)"

text \<open>
  The index the map holds for an identifier of the saved order: that of its last
  occurrence.
\<close>

definition lastIndex :: "nat \<Rightarrow> string list \<Rightarrow> string \<Rightarrow> nat" where
  "lastIndex i S x = (case newMap (entriesFrom i S) x of Some j \<Rightarrow> j | None \<Rightarrow> 0)"

text \<open>
  A sequence of identifiers restricted to the identifiers present in another one, in the
  words of the specification.
\<close>

definition restrictTo :: "string list \<Rightarrow> string list \<Rightarrow> string list" where
  "restrictTo present xs = filter (\<lambda>x. x \<in> set present) xs"

section \<open>Properties\<close>

subsection \<open>The order map and the comparator\<close>

lemma fold_upd_map_of:
  "fold (\<lambda>kv m. m(fst kv \<mapsto> snd kv)) kvs m0 = m0 ++ map_of (rev kvs)"
  by (induction kvs arbitrary: m0) (auto simp: map_add_def fun_eq_iff split: option.splits)

lemma newMap_map_of: "newMap kvs = map_of (rev kvs)"
  by (simp add: newMap_def fold_upd_map_of)

lemma newMap_Cons:
  "newMap ((k, i) # kvs) x =
     (case newMap kvs x of
        Some j \<Rightarrow> Some j
      | None \<Rightarrow> (if x = k then Some i else None))"
  by (simp add: newMap_map_of map_add_def split: option.splits)

lemma newMap_None_iff: "newMap (entriesFrom i S) x = None \<longleftrightarrow> x \<notin> set S"
proof (induction S arbitrary: i)
  case Nil
  show ?case by (simp add: newMap_def)
next
  case (Cons k ks)
  show ?case using Cons.IH[of "Suc i"]
    by (cases "newMap (entriesFrom (Suc i) ks) x") (auto simp: newMap_Cons)
qed

lemma newMap_Some_bounds:
  "newMap (entriesFrom i S) x = Some j \<Longrightarrow> i \<le> j \<and> j < i + length S \<and> S ! (j - i) = x"
proof (induction S arbitrary: i)
  case Nil
  then show ?case by (simp add: newMap_def)
next
  case (Cons k ks)
  show ?case
  proof (cases "newMap (entriesFrom (Suc i) ks) x")
    case None
    with Cons.prems show ?thesis by (auto simp: newMap_Cons split: if_splits)
  next
    case (Some j')
    with Cons.prems have "j' = j" by (simp add: newMap_Cons)
    with Some Cons.IH[of "Suc i"] have "Suc i \<le> j \<and> j < Suc i + length ks \<and> ks ! (j - Suc i) = x"
      by simp
    then show ?thesis by (auto simp: nth_Cons')
  qed
qed

text \<open>
  The comparator is consistent, as \<^verbatim>\<open>sort\<close> needs it for its result to be determined.
\<close>

lemma compareFn_consistent:
  "compareFn m a a = 0"
  "compareFn m a b = 0 \<Longrightarrow> compareFn m b a = 0"
  "compareFn m a b = 0 \<Longrightarrow> compareFn m b c = 0 \<Longrightarrow> compareFn m a c = 0"
  "compareFn m a b < 0 \<longleftrightarrow> 0 < compareFn m b a"
  "compareFn m a b < 0 \<Longrightarrow> compareFn m b c < 0 \<Longrightarrow> compareFn m a c < 0"
  "0 < compareFn m a b \<Longrightarrow> 0 < compareFn m b c \<Longrightarrow> 0 < compareFn m a c"
  by (auto simp: compareFn_def split: option.splits)

text \<open>
  It compares two entities by their ranks, so the insertion sort of the model is the
  stable sort by rank of the library.
\<close>

lemma compareFn_le_iff:
  assumes "\<And>x j. m x = Some j \<Longrightarrow> j < n"
  shows "compareFn m a b \<le> 0 \<longleftrightarrow> rankOf m n a \<le> rankOf m n b"
  using assms[of "id' a"] assms[of "id' b"]
  by (auto simp: compareFn_def rankOf_def split: option.splits)

lemma insertBy_insort_key:
  assumes "\<And>x j. m x = Some j \<Longrightarrow> j < n"
  shows "insertBy (compareFn m) x ys = insort_key (rankOf m n) x ys"
  by (induction ys) (simp_all add: compareFn_le_iff[OF assms])

lemma sortBy_sort_key:
  assumes "\<And>x j. m x = Some j \<Longrightarrow> j < n"
  shows "sortBy (compareFn m) xs = sort_key (rankOf m n) xs"
  unfolding sortBy_def sort_key_def
  by (induction xs) (simp_all add: insertBy_insort_key[OF assms])

lemma applySavedOrder_sort_key:
  "applySavedOrder E S = sort_key (orderRank S) E"
proof (cases "S = []")
  case True
  have "map (orderRank S) E = replicate (length E) 0"
    by (induction E) (simp_all add: True orderRank_def rankOf_def newMap_def)
  then have "sorted (map (orderRank S) E)"
    by (simp add: sorted_replicate)
  then show ?thesis by (simp add: True applySavedOrder_def sort_key_id_if_sorted)
next
  case False
  have "\<And>x j. newMap (entriesFrom 0 S) x = Some j \<Longrightarrow> j < length S"
    using newMap_Some_bounds[of 0 S] by auto
  from sortBy_sort_key[OF this] False show ?thesis
    by (simp add: applySavedOrder_def orderRank_def)
qed

subsection \<open>Known identifiers first, unknown ones in their order\<close>

lemma applySavedOrder_mset: "mset (applySavedOrder E S) = mset E"
  by (simp add: applySavedOrder_sort_key)

lemma orderRank_known: "id' e \<in> set S \<Longrightarrow> orderRank S e < length S"
  using newMap_None_iff[of 0 S "id' e"] newMap_Some_bounds[of 0 S "id' e"]
  by (auto simp: orderRank_def rankOf_def split: option.splits)

lemma orderRank_unknown: "id' e \<notin> set S \<Longrightarrow> orderRank S e = length S"
  using newMap_None_iff[of 0 S "id' e"]
  by (auto simp: orderRank_def rankOf_def split: option.splits)

lemma orderRank_less_iff: "orderRank S e < length S \<longleftrightarrow> id' e \<in> set S"
  by (cases "id' e \<in> set S") (simp_all add: orderRank_known orderRank_unknown)

lemma orderRank_eq_iff: "orderRank S e = length S \<longleftrightarrow> id' e \<notin> set S"
  using orderRank_known[of e S] by (cases "id' e \<in> set S") (simp_all add: orderRank_unknown)

lemma sorted_split_at:
  "sorted (map f xs) \<Longrightarrow> xs = filter (\<lambda>x. f x < (n::nat)) xs @ filter (\<lambda>x. \<not> f x < n) xs"
proof (induction xs)
  case Nil
  show ?case by simp
next
  case (Cons x xs)
  show ?case
  proof (cases "f x < n")
    case True
    with Cons show ?thesis by simp
  next
    case False
    with Cons.prems have "\<forall>y\<in>set xs. \<not> f y < n" by auto
    then have "filter (\<lambda>x. f x < n) xs = []" "filter (\<lambda>x. \<not> f x < n) xs = xs"
      by (simp_all add: filter_empty_conv filter_id_conv)
    with False show ?thesis by simp
  qed
qed

lemma applySavedOrder_unknown_stable:
  "filter (\<lambda>e. id' e \<notin> set S) (applySavedOrder E S) = filter (\<lambda>e. id' e \<notin> set S) E"
  using sort_key_stable[of "orderRank S" "length S" E]
  by (simp add: applySavedOrder_sort_key orderRank_eq_iff)

lemma applySavedOrder_known_then_unknown:
  "applySavedOrder E S =
     filter (\<lambda>e. id' e \<in> set S) (applySavedOrder E S) @ filter (\<lambda>e. id' e \<notin> set S) E"
proof -
  let ?R = "applySavedOrder E S"
  have "sorted (map (orderRank S) ?R)" by (simp add: applySavedOrder_sort_key)
  from sorted_split_at[OF this, of "length S"]
  have "?R = filter (\<lambda>e. id' e \<in> set S) ?R @ filter (\<lambda>e. id' e \<notin> set S) ?R"
    by (simp add: orderRank_less_iff)
  then show ?thesis by (simp add: applySavedOrder_unknown_stable)
qed

subsection \<open>The order among the known identifiers\<close>

lemma lastIndex_Cons_mem:
  "x \<in> set ks \<Longrightarrow> lastIndex i (k # ks) x = lastIndex (Suc i) ks x"
  using newMap_None_iff[of "Suc i" ks x]
  by (cases "newMap (entriesFrom (Suc i) ks) x") (simp_all add: lastIndex_def newMap_Cons)

lemma lastIndex_Cons_new:
  "k \<notin> set ks \<Longrightarrow> lastIndex i (k # ks) k = i"
  using newMap_None_iff[of "Suc i" ks k]
  by (simp add: lastIndex_def newMap_Cons)

lemma lastIndex_bounds:
  "x \<in> set S \<Longrightarrow> i \<le> lastIndex i S x \<and> lastIndex i S x < i + length S \<and> S ! (lastIndex i S x - i) = x"
  using newMap_None_iff[of i S x] newMap_Some_bounds[of i S x]
  by (cases "newMap (entriesFrom i S) x") (simp_all add: lastIndex_def)

lemma sorted_lastIndex_remdups: "sorted (map (lastIndex i S) (remdups S))"
proof (induction S arbitrary: i)
  case Nil
  show ?case by simp
next
  case (Cons k ks)
  have eq: "map (lastIndex i (k # ks)) (remdups ks) = map (lastIndex (Suc i) ks) (remdups ks)"
    by (rule map_cong) (simp_all add: lastIndex_Cons_mem)
  show ?case
  proof (cases "k \<in> set ks")
    case True
    then show ?thesis using Cons.IH[of "Suc i"] by (simp add: eq)
  next
    case False
    have "\<forall>y\<in>set ks. i \<le> lastIndex (Suc i) ks y"
    proof
      fix y assume "y \<in> set ks"
      from lastIndex_bounds[OF this, of "Suc i"] show "i \<le> lastIndex (Suc i) ks y" by simp
    qed
    with False show ?thesis using Cons.IH[of "Suc i"]
      by (simp add: eq lastIndex_Cons_new)
  qed
qed

lemma inj_on_lastIndex: "inj_on (lastIndex i S) (set S)"
proof (rule inj_onI)
  fix x y assume "x \<in> set S" "y \<in> set S" "lastIndex i S x = lastIndex i S y"
  then show "x = y" using lastIndex_bounds[of x S i] lastIndex_bounds[of y S i] by metis
qed

lemma orderRank_lastIndex: "id' e \<in> set S \<Longrightarrow> orderRank S e = lastIndex 0 S (id' e)"
  using newMap_None_iff[of 0 S "id' e"]
  by (cases "newMap (entriesFrom 0 S) (id' e)") (simp_all add: orderRank_def rankOf_def lastIndex_def)

lemma applySavedOrder_known_order:
  assumes "distinct (map id' E)"
  shows "filter (\<lambda>i. i \<in> set S) (map id' (applySavedOrder E S)) =
         filter (\<lambda>i. i \<in> id' ` set E) (remdups S)"
proof -
  let ?R = "applySavedOrder E S"
  let ?L1 = "filter (\<lambda>i. i \<in> set S) (map id' ?R)"
  let ?L2 = "filter (\<lambda>i. i \<in> id' ` set E) (remdups S)"
  let ?k = "lastIndex 0 S"
  have L1: "?L1 = map id' (filter (\<lambda>e. id' e \<in> set S) ?R)"
    by (simp add: filter_map comp_def)
  have "mset (map id' ?R) = mset (map id' E)"
    by (simp add: applySavedOrder_mset)
  then have dR: "distinct (map id' ?R)"
    using assms by (metis mset_eq_imp_distinct_iff)
  have d1: "distinct ?L1" using dR by simp
  have d2: "distinct ?L2" by simp
  have sets: "set ?L1 = set ?L2"
    by (auto simp: applySavedOrder_sort_key)
  have "map ?k ?L1 = map (orderRank S) (filter (\<lambda>e. id' e \<in> set S) ?R)"
    unfolding L1 map_map by (rule map_cong) (simp_all add: orderRank_lastIndex)
  moreover have "sorted (map (orderRank S) (filter (\<lambda>e. id' e \<in> set S) ?R))"
    by (rule sorted_filter) (simp add: applySavedOrder_sort_key)
  ultimately have s1: "sorted (map ?k ?L1)" by simp
  have s2: "sorted (map ?k ?L2)"
    by (rule sorted_filter) (rule sorted_lastIndex_remdups)
  have i1: "inj_on ?k (set ?L1)" by (rule inj_on_subset[OF inj_on_lastIndex]) auto
  have i2: "inj_on ?k (set ?L2)" by (rule inj_on_subset[OF inj_on_lastIndex]) auto
  have "map ?k ?L1 = map ?k ?L2"
  proof (rule sorted_distinct_set_unique)
    show "distinct (map ?k ?L1)" using d1 i1 by (simp add: distinct_map)
    show "distinct (map ?k ?L2)" using d2 i2 by (simp add: distinct_map)
    show "set (map ?k ?L1) = set (map ?k ?L2)" using sets by simp
  qed (rule s1, rule s2)
  moreover have "inj_on ?k (set ?L1 \<union> set ?L2)" using i1 sets by simp
  ultimately show ?thesis using inj_on_map_eq_map[of ?k ?L1 ?L2] by simp
qed

lemmas applySavedOrder_eval = applySavedOrder_def newMap_def sortBy_def compareFn_def

subsection \<open>The order application function\<close>

text \<open>
  Claim C10. For every input sequence and every saved order, with repeated identifiers
  or identifiers of entities that are gone, \<open>applySavedOrder\<close> returns a permutation of
  its input: the same entities, each as often as before, none changed, and so the same
  length.
\<close>

theorem applySavedOrder_permutation:
  "mset (applySavedOrder E S) = mset E \<and>
   length (applySavedOrder E S) = length E \<and>
   set (applySavedOrder E S) = set E"
  by (simp add: applySavedOrder_sort_key)

text \<open>
  Claim C9. Applying the saved order \<open>S\<close> to a sequence that \<open>S\<close> has already been
  applied to changes nothing.
\<close>

theorem applySavedOrder_idempotent:
  "applySavedOrder (applySavedOrder E S) S = applySavedOrder E S"
  by (simp add: applySavedOrder_sort_key sort_key_id_if_sorted)

text \<open>
  Claim C1, as stated, at the entities \<open>a, b\<close> and a saved order that names \<open>a\<close> twice,
  \<open>a, b, a\<close>: the result is \<open>b, a\<close>, and its identifiers that are present in the saved
  order are not the saved order restricted to the identifiers of the entities. The map
  keeps the last index of \<open>a\<close>, so \<open>b\<close> comes first though the saved order begins with
  \<open>a\<close>.
\<close>

theorem applySavedOrder_repeated_id_counterexample:
  "map id' (applySavedOrder [\<lparr>id' = ''a''\<rparr>, \<lparr>id' = ''b''\<rparr>] [''a'', ''b'', ''a''])
     = [''b'', ''a''] \<and>
   restrictTo [''a'', ''b'', ''a'']
     (map id' (applySavedOrder [\<lparr>id' = ''a''\<rparr>, \<lparr>id' = ''b''\<rparr>] [''a'', ''b'', ''a'']))
   \<noteq> restrictTo (map id' [\<lparr>id' = ''a''\<rparr>, \<lparr>id' = ''b''\<rparr>]) [''a'', ''b'', ''a'']"
  by (simp add: restrictTo_def applySavedOrder_eval)

text \<open>
  Claim C1, amended. For entities \<open>E\<close> with unique identifiers and every saved order
  \<open>S\<close>: an empty \<open>S\<close> gives \<open>E\<close> back; the identifiers of the result that are present in
  \<open>S\<close> are \<open>S\<close> without its earlier repetitions (\<open>remdups\<close> keeps the last occurrence of
  each identifier) restricted to the identifiers of \<open>E\<close>, and are \<open>S\<close> restricted to the
  identifiers of \<open>E\<close> when \<open>S\<close> repeats none; the entities whose identifier is not in \<open>S\<close>
  follow all the others, in their order in \<open>E\<close>.
\<close>

theorem applySavedOrder_order:
  assumes "distinct (map id' E)"
  shows "(S = [] \<longrightarrow> applySavedOrder E S = E) \<and>
         restrictTo S (map id' (applySavedOrder E S)) = restrictTo (map id' E) (remdups S) \<and>
         (distinct S \<longrightarrow>
            restrictTo S (map id' (applySavedOrder E S)) = restrictTo (map id' E) S) \<and>
         applySavedOrder E S =
           filter (\<lambda>e. id' e \<in> set S) (applySavedOrder E S) @ filter (\<lambda>e. id' e \<notin> set S) E"
proof -
  have known: "restrictTo S (map id' (applySavedOrder E S)) = restrictTo (map id' E) (remdups S)"
    using applySavedOrder_known_order[OF assms, of S] by (simp add: restrictTo_def)
  have "S = [] \<longrightarrow> applySavedOrder E S = E"
    by (simp add: applySavedOrder_def)
  moreover have "distinct S \<longrightarrow>
      restrictTo S (map id' (applySavedOrder E S)) = restrictTo (map id' E) S"
    using known by (simp add: distinct_remdups_id)
  moreover note known applySavedOrder_known_then_unknown[of E S]
  ultimately show ?thesis by blast
qed

text \<open>
  The scenario of the specification: saved host order \<open>h2, h1\<close> and live hosts
  \<open>h1, h3, h2\<close> give the order \<open>h2, h1, h3\<close>. The empty saved order gives the hosts
  back.
\<close>

theorem applySavedOrder_order_witness:
  "distinct (map id' [\<lparr>id' = ''h1''\<rparr>, \<lparr>id' = ''h3''\<rparr>, \<lparr>id' = ''h2''\<rparr>]) \<and>
   distinct [''h2'', ''h1''] \<and>
   map id' (applySavedOrder [\<lparr>id' = ''h1''\<rparr>, \<lparr>id' = ''h3''\<rparr>, \<lparr>id' = ''h2''\<rparr>] [''h2'', ''h1''])
     = [''h2'', ''h1'', ''h3''] \<and>
   restrictTo [''h2'', ''h1'']
     (map id' (applySavedOrder [\<lparr>id' = ''h1''\<rparr>, \<lparr>id' = ''h3''\<rparr>, \<lparr>id' = ''h2''\<rparr>] [''h2'', ''h1'']))
     = [''h2'', ''h1''] \<and>
   applySavedOrder [\<lparr>id' = ''h1''\<rparr>, \<lparr>id' = ''h3''\<rparr>, \<lparr>id' = ''h2''\<rparr>] []
     = [\<lparr>id' = ''h1''\<rparr>, \<lparr>id' = ''h3''\<rparr>, \<lparr>id' = ''h2''\<rparr>]"
  using applySavedOrder_order[of "[\<lparr>id' = ''h1''\<rparr>, \<lparr>id' = ''h3''\<rparr>, \<lparr>id' = ''h2''\<rparr>]" "[''h2'', ''h1'']"]
        applySavedOrder_order[of "[\<lparr>id' = ''h1''\<rparr>, \<lparr>id' = ''h3''\<rparr>, \<lparr>id' = ''h2''\<rparr>]" "[]"]
  by (simp add: restrictTo_def applySavedOrder_eval)

subsection \<open>Refresh\<close>

lemma fetchData_failure:
  "client_getHosts client = Inl err \<Longrightarrow>
   fetchData client st =
     st\<lparr>error := Some (messageOr err ''Failed to fetch data''), loading := False,
        requests := requests st @ [GetHosts]\<rparr>"
  by (simp add: fetchData_def)

lemma fetchData_success:
  "client_getHosts client = Inr hostsData \<Longrightarrow>
   fetchData client st =
     st\<lparr>error := None, hosts := map (fetchInstancesOf client) hostsData, loading := False,
        requests := requests st @ GetHosts # map (\<lambda>host. GetHostInstances (id' host)) hostsData\<rparr>"
  by (simp add: fetchData_def)

lemma fetchData_requests:
  "\<exists>rest. requests (fetchData client st) = requests st @ GetHosts # rest"
  by (cases "client_getHosts client") (simp_all add: fetchData_failure fetchData_success)

lemma fetchInstancesOf_fields:
  "id' (fetchInstancesOf client h) = id' h"
  "name (fetchInstancesOf client h) = name h"
  "status (fetchInstancesOf client h) = status h"
  "memory (fetchInstancesOf client h) = memory h"
  "HostWithInstances.more (fetchInstancesOf client h) = Host.more h"
  "instances (fetchInstancesOf client h) =
     (case client_getHostInstances client (id' h) of Inr is \<Rightarrow> is | Inl err \<Rightarrow> [])"
  by (simp_all add: fetchInstancesOf_def withInstances_def split: sum.splits)

text \<open>
  Claim C2. When the fetch of the host list fails, the last error becomes the message of
  the failure (the fixed text \<open>Failed to fetch data\<close> when what was thrown is no
  \<^verbatim>\<open>Error\<close>) and the hosts stay as they were; when it succeeds, the last error is
  cleared and the hosts are replaced by the fetched ones, each with its instances; the
  loading flag is cleared either way.
\<close>

theorem fetchData_host_list_outcome:
  "(client_getHosts client = Inl (Error msg) \<longrightarrow>
      error (fetchData client st) = Some msg \<and>
      hosts (fetchData client st) = hosts st \<and>
      loading (fetchData client st) = False) \<and>
   (client_getHosts client = Inl NonError \<longrightarrow>
      error (fetchData client st) = Some ''Failed to fetch data'' \<and>
      hosts (fetchData client st) = hosts st \<and>
      loading (fetchData client st) = False) \<and>
   (client_getHosts client = Inr hostsData \<longrightarrow>
      error (fetchData client st) = None \<and>
      hosts (fetchData client st) = map (fetchInstancesOf client) hostsData \<and>
      loading (fetchData client st) = False)"
  by (simp add: fetchData_failure fetchData_success)

text \<open>
  A refresh that fails after one that succeeded keeps the two hosts and reports the
  message, or the fixed text when the value thrown is no \<^verbatim>\<open>Error\<close>; a refresh that
  succeeds after one that failed clears the error.
\<close>

theorem fetchData_host_list_outcome_witness:
  "client_getHosts clientDown = Inl (Error ''network down'') \<and>
   error (fetchData clientDown (fetchData clientAB state0)) = Some ''network down'' \<and>
   hosts (fetchData clientDown (fetchData clientAB state0)) = hosts (fetchData clientAB state0) \<and>
   map id' (hosts (fetchData clientAB state0)) = [''A'', ''B''] \<and>
   loading (fetchData clientDown (fetchData clientAB state0)) = False \<and>
   client_getHosts clientOdd = Inl NonError \<and>
   error (fetchData clientOdd stateAB) = Some ''Failed to fetch data'' \<and>
   hosts (fetchData clientOdd stateAB) = hosts stateAB \<and>
   loading (fetchData clientOdd stateAB) = False \<and>
   client_getHosts clientAB = Inr [hostA, hostB] \<and>
   error (fetchData clientDown state0) = Some ''network down'' \<and>
   error (fetchData clientAB (fetchData clientDown state0)) = None \<and>
   hosts (fetchData clientAB (fetchData clientDown state0)) =
     map (fetchInstancesOf clientAB) [hostA, hostB] \<and>
   loading (fetchData clientAB (fetchData clientDown state0)) = False"
proof -
  have d: "client_getHosts clientDown = Inl (Error ''network down'')"
    by (simp add: clientDown_def)
  have o: "client_getHosts clientOdd = Inl NonError"
    by (simp add: clientOdd_def)
  have u: "client_getHosts clientAB = Inr [hostA, hostB]"
    by (simp add: clientAB_def)
  from fetchData_host_list_outcome[of clientDown "''network down''" "fetchData clientAB state0" "[]"]
       fetchData_host_list_outcome[of clientDown "''network down''" "state0" "[]"]
       fetchData_host_list_outcome[of clientOdd "[]" "stateAB" "[]"]
       fetchData_host_list_outcome[of clientAB "[]" "fetchData clientDown state0" "[hostA, hostB]"]
       fetchData_host_list_outcome[of clientAB "[]" "state0" "[hostA, hostB]"]
       d o u
  show ?thesis by (simp add: fetchInstancesOf_fields hostA_def hostB_def)
qed

text \<open>
  Claim C5. When the host list is fetched, the refresh succeeds whatever the fetches of
  the instances do: the last error is unset, the new hosts are the fetched hosts in their
  order, each with its fields, a host whose instances were fetched has them, and a host
  whose fetch failed has none.
\<close>

theorem fetchData_isolates_instance_failure:
  assumes "client_getHosts client = Inr hostsData"
  shows "error (fetchData client st) = None \<and>
         loading (fetchData client st) = False \<and>
         map id' (hosts (fetchData client st)) = map id' hostsData \<and>
         (\<forall>k < length hostsData.
            name (hosts (fetchData client st) ! k) = name (hostsData ! k) \<and>
            status (hosts (fetchData client st) ! k) = status (hostsData ! k) \<and>
            memory (hosts (fetchData client st) ! k) = memory (hostsData ! k) \<and>
            HostWithInstances.more (hosts (fetchData client st) ! k) = Host.more (hostsData ! k) \<and>
            (\<forall>is. client_getHostInstances client (id' (hostsData ! k)) = Inr is \<longrightarrow>
                  instances (hosts (fetchData client st) ! k) = is) \<and>
            (\<forall>err. client_getHostInstances client (id' (hostsData ! k)) = Inl err \<longrightarrow>
                  instances (hosts (fetchData client st) ! k) = []))"
  by (simp add: fetchData_success[OF assms] fetchInstancesOf_fields comp_def)

text \<open>Hosts \<open>A\<close> and \<open>B\<close>, where the fetch of the instances of \<open>B\<close> fails.\<close>

theorem fetchData_isolates_instance_failure_witness:
  "client_getHosts clientAB = Inr [hostA, hostB] \<and>
   client_getHostInstances clientAB ''A'' = Inr instancesA \<and>
   client_getHostInstances clientAB ''B'' = Inl (Error ''timeout'') \<and>
   error (fetchData clientAB state0) = None \<and>
   map id' (hosts (fetchData clientAB state0)) = [''A'', ''B''] \<and>
   instances (hosts (fetchData clientAB state0) ! 0) = instancesA \<and>
   instances (hosts (fetchData clientAB state0) ! 1) = []"
proof -
  have h: "client_getHosts clientAB = Inr [hostA, hostB]" by (simp add: clientAB_def)
  have a: "client_getHostInstances clientAB (id' ([hostA, hostB] ! 0)) = Inr instancesA"
    by (simp add: clientAB_def hostA_def)
  have b: "client_getHostInstances clientAB (id' ([hostA, hostB] ! 1)) = Inl (Error ''timeout'')"
    by (simp add: clientAB_def hostB_def)
  from fetchData_isolates_instance_failure[OF h, of state0] a b
  show ?thesis by (simp add: hostA_def hostB_def clientAB_def)
qed

subsection \<open>Actions on an instance\<close>

lemma startInstance_failure:
  "client_startInstance client hostId instanceId = Inl err \<Longrightarrow>
   startInstance client hostId instanceId st =
     (Inl (Error (messageOr err ''Failed to start instance'')),
      st\<lparr>requests := requests st @ [StartInstance hostId instanceId]\<rparr>)"
  by (simp add: startInstance_def)

lemma stopInstance_failure:
  "client_stopInstance client hostId instanceId = Inl err \<Longrightarrow>
   stopInstance client hostId instanceId st =
     (Inl (Error (messageOr err ''Failed to stop instance'')),
      st\<lparr>requests := requests st @ [StopInstance hostId instanceId]\<rparr>)"
  by (simp add: stopInstance_def)

lemma restartInstance_failure:
  "client_restartInstance client hostId instanceId = Inl err \<Longrightarrow>
   restartInstance client hostId instanceId st =
     (Inl (Error (messageOr err ''Failed to restart instance'')),
      st\<lparr>requests := requests st @ [RestartInstance hostId instanceId]\<rparr>)"
  by (simp add: restartInstance_def)

lemma startInstance_success:
  "client_startInstance client hostId instanceId = Inr u \<Longrightarrow>
   startInstance client hostId instanceId st =
     (Inr (), fetchData client (st\<lparr>requests := requests st @ [StartInstance hostId instanceId]\<rparr>))"
  by (simp add: startInstance_def)

lemma stopInstance_success:
  "client_stopInstance client hostId instanceId = Inr u \<Longrightarrow>
   stopInstance client hostId instanceId st =
     (Inr (), fetchData client (st\<lparr>requests := requests st @ [StopInstance hostId instanceId]\<rparr>))"
  by (simp add: stopInstance_def)

lemma restartInstance_success:
  "client_restartInstance client hostId instanceId = Inr u \<Longrightarrow>
   restartInstance client hostId instanceId st =
     (Inr (), fetchData client (st\<lparr>requests := requests st @ [RestartInstance hostId instanceId]\<rparr>))"
  by (simp add: restartInstance_def)

lemma refresh_follows_action:
  "take 2 (drop (length (requests st))
     (requests (fetchData client (st\<lparr>requests := requests st @ [call]\<rparr>)))) = [call, GetHosts]"
proof -
  obtain rest where "requests (fetchData client (st\<lparr>requests := requests st @ [call]\<rparr>))
      = requests (st\<lparr>requests := requests st @ [call]\<rparr>) @ GetHosts # rest"
    using fetchData_requests by blast
  then show ?thesis by simp
qed

text \<open>
  Claim C4. When the adapter's action fails, the operation fails with an \<^verbatim>\<open>Error\<close> that
  carries the message of the failure, or the fallback text of the operation when what was
  thrown is no \<^verbatim>\<open>Error\<close>; the state is the one before but for the record of the one call
  made, so the hosts are unchanged and nothing was fetched. When the action succeeds, the
  operation returns after a refresh: the state is the one \<open>fetchData\<close> leaves, and the call
  that follows the action is the fetch of the host list.
\<close>

theorem action_then_refresh:
  "(client_startInstance client hostId instanceId = Inl err \<longrightarrow>
      startInstance client hostId instanceId st =
        (Inl (Error (messageOr err ''Failed to start instance'')),
         st\<lparr>requests := requests st @ [StartInstance hostId instanceId]\<rparr>)) \<and>
   (client_startInstance client hostId instanceId = Inr u \<longrightarrow>
      startInstance client hostId instanceId st =
        (Inr (), fetchData client (st\<lparr>requests := requests st @ [StartInstance hostId instanceId]\<rparr>)) \<and>
      take 2 (drop (length (requests st))
        (requests (snd (startInstance client hostId instanceId st))))
        = [StartInstance hostId instanceId, GetHosts]) \<and>
   (client_stopInstance client hostId instanceId = Inl err \<longrightarrow>
      stopInstance client hostId instanceId st =
        (Inl (Error (messageOr err ''Failed to stop instance'')),
         st\<lparr>requests := requests st @ [StopInstance hostId instanceId]\<rparr>)) \<and>
   (client_stopInstance client hostId instanceId = Inr u \<longrightarrow>
      stopInstance client hostId instanceId st =
        (Inr (), fetchData client (st\<lparr>requests := requests st @ [StopInstance hostId instanceId]\<rparr>)) \<and>
      take 2 (drop (length (requests st))
        (requests (snd (stopInstance client hostId instanceId st))))
        = [StopInstance hostId instanceId, GetHosts]) \<and>
   (client_restartInstance client hostId instanceId = Inl err \<longrightarrow>
      restartInstance client hostId instanceId st =
        (Inl (Error (messageOr err ''Failed to restart instance'')),
         st\<lparr>requests := requests st @ [RestartInstance hostId instanceId]\<rparr>)) \<and>
   (client_restartInstance client hostId instanceId = Inr u \<longrightarrow>
      restartInstance client hostId instanceId st =
        (Inr (), fetchData client (st\<lparr>requests := requests st @ [RestartInstance hostId instanceId]\<rparr>)) \<and>
      take 2 (drop (length (requests st))
        (requests (snd (restartInstance client hostId instanceId st))))
        = [RestartInstance hostId instanceId, GetHosts])"
  by (simp add: startInstance_failure stopInstance_failure restartInstance_failure
        startInstance_success stopInstance_success restartInstance_success
        refresh_follows_action)

text \<open>
  The scenario of the specification: the start fails with \<open>connection refused\<close>, the
  operation fails with that message, the hosts are unchanged and no host list was
  requested. The stop throws a value that is no \<^verbatim>\<open>Error\<close>; the restart succeeds and the
  two hosts are fetched. With the second adapter the start and the stop succeed and are
  followed by the request of the host list, and the restart fails.
\<close>

theorem action_then_refresh_witness:
  "client_startInstance clientAB ''A'' ''i1'' = Inl (Error ''connection refused'') \<and>
   fst (startInstance clientAB ''A'' ''i1'' stateAB) = Inl (Error ''connection refused'') \<and>
   hosts (snd (startInstance clientAB ''A'' ''i1'' stateAB)) = hosts stateAB \<and>
   requests (snd (startInstance clientAB ''A'' ''i1'' stateAB)) = [StartInstance ''A'' ''i1''] \<and>
   client_stopInstance clientAB ''A'' ''i1'' = Inl NonError \<and>
   fst (stopInstance clientAB ''A'' ''i1'' stateAB) = Inl (Error ''Failed to stop instance'') \<and>
   snd (stopInstance clientAB ''A'' ''i1'' stateAB) =
     stateAB\<lparr>requests := [StopInstance ''A'' ''i1'']\<rparr> \<and>
   client_restartInstance clientAB ''A'' ''i1'' = Inr () \<and>
   fst (restartInstance clientAB ''A'' ''i1'' state0) = Inr () \<and>
   requests (snd (restartInstance clientAB ''A'' ''i1'' state0)) =
     [RestartInstance ''A'' ''i1'', GetHosts, GetHostInstances ''A'', GetHostInstances ''B''] \<and>
   map id' (hosts (snd (restartInstance clientAB ''A'' ''i1'' state0))) = [''A'', ''B''] \<and>
   client_startInstance clientOdd ''A'' ''i1'' = Inr () \<and>
   fst (startInstance clientOdd ''A'' ''i1'' stateAB) = Inr () \<and>
   requests (snd (startInstance clientOdd ''A'' ''i1'' stateAB)) =
     [StartInstance ''A'' ''i1'', GetHosts] \<and>
   client_stopInstance clientOdd ''A'' ''i1'' = Inr () \<and>
   fst (stopInstance clientOdd ''A'' ''i1'' stateAB) = Inr () \<and>
   requests (snd (stopInstance clientOdd ''A'' ''i1'' stateAB)) =
     [StopInstance ''A'' ''i1'', GetHosts] \<and>
   client_restartInstance clientOdd ''A'' ''i1'' = Inl (Error ''busy'') \<and>
   restartInstance clientOdd ''A'' ''i1'' stateAB =
     (Inl (Error ''busy''), stateAB\<lparr>requests := [RestartInstance ''A'' ''i1'']\<rparr>)"
proof -
  have s: "client_startInstance clientAB ''A'' ''i1'' = Inl (Error ''connection refused'')"
    and t: "client_stopInstance clientAB ''A'' ''i1'' = Inl NonError"
    and r: "client_restartInstance clientAB ''A'' ''i1'' = Inr ()"
    and g: "client_getHosts clientAB = Inr [hostA, hostB]"
    by (simp_all add: clientAB_def)
  have s': "client_startInstance clientOdd ''A'' ''i1'' = Inr ()"
    and t': "client_stopInstance clientOdd ''A'' ''i1'' = Inr ()"
    and r': "client_restartInstance clientOdd ''A'' ''i1'' = Inl (Error ''busy'')"
    and g': "client_getHosts clientOdd = Inl NonError"
    by (simp_all add: clientOdd_def)
  have q: "requests stateAB = []" "requests state0 = []"
    by (simp_all add: stateAB_def state0_def)
  from action_then_refresh[of clientAB "''A''" "''i1''" "Error ''connection refused''" stateAB "()"] s
  have 1: "startInstance clientAB ''A'' ''i1'' stateAB =
      (Inl (Error ''connection refused''), stateAB\<lparr>requests := requests stateAB @ [StartInstance ''A'' ''i1'']\<rparr>)"
    by simp
  from action_then_refresh[of clientAB "''A''" "''i1''" NonError stateAB "()"] t
  have 2: "stopInstance clientAB ''A'' ''i1'' stateAB =
      (Inl (Error ''Failed to stop instance''), stateAB\<lparr>requests := requests stateAB @ [StopInstance ''A'' ''i1'']\<rparr>)"
    by simp
  from action_then_refresh[of clientAB "''A''" "''i1''" NonError state0 "()"] r
  have 3: "restartInstance clientAB ''A'' ''i1'' state0 =
      (Inr (), fetchData clientAB (state0\<lparr>requests := requests state0 @ [RestartInstance ''A'' ''i1'']\<rparr>))"
    by simp
  from action_then_refresh[of clientOdd "''A''" "''i1''" "Error ''busy''" stateAB "()"] s' t' r'
  have 4: "startInstance clientOdd ''A'' ''i1'' stateAB =
      (Inr (), fetchData clientOdd (stateAB\<lparr>requests := requests stateAB @ [StartInstance ''A'' ''i1'']\<rparr>))"
    and 5: "stopInstance clientOdd ''A'' ''i1'' stateAB =
      (Inr (), fetchData clientOdd (stateAB\<lparr>requests := requests stateAB @ [StopInstance ''A'' ''i1'']\<rparr>))"
    and 6: "restartInstance clientOdd ''A'' ''i1'' stateAB =
      (Inl (Error ''busy''), stateAB\<lparr>requests := requests stateAB @ [RestartInstance ''A'' ''i1'']\<rparr>)"
    by simp_all
  show ?thesis
    unfolding 1 2 3 4 5 6
    by (simp add: s t r s' t' r' q fetchData_success[OF g] fetchData_failure[OF g']
          fetchInstancesOf_fields hostA_def hostB_def)
qed

subsection \<open>Reading the order store\<close>

text \<open>
  Claim C6. A read gives the empty sequence when the key is missing, when it holds the
  empty text, and when \<^verbatim>\<open>JSON.parse\<close> rejects the text. When \<^verbatim>\<open>JSON.parse\<close> accepts the
  text, the read gives the parsed value as it is, a sequence of identifiers or not.
  No read has a failing outcome.
\<close>

theorem stored_value_returned_unchecked:
  "(storage HOST_ORDER_KEY = None \<or> storage HOST_ORDER_KEY = Some [] \<or>
      (\<exists>raw. storage HOST_ORDER_KEY = Some raw \<and> parse J raw = None)
      \<longrightarrow> readHostOrder J storage = JArr []) \<and>
   (storage HOST_ORDER_KEY = Some raw \<and> raw \<noteq> [] \<and> parse J raw = Some v
      \<longrightarrow> readHostOrder J storage = v) \<and>
   (storage (INSTANCE_ORDER_KEY_PREFIX @ hostId) = None \<or>
    storage (INSTANCE_ORDER_KEY_PREFIX @ hostId) = Some [] \<or>
      (\<exists>raw. storage (INSTANCE_ORDER_KEY_PREFIX @ hostId) = Some raw \<and> parse J raw = None)
      \<longrightarrow> readInstanceOrder J hostId storage = JArr []) \<and>
   (storage (INSTANCE_ORDER_KEY_PREFIX @ hostId) = Some raw' \<and> raw' \<noteq> [] \<and> parse J raw' = Some v'
      \<longrightarrow> readInstanceOrder J hostId storage = v')"
  by (auto simp: readHostOrder_def readInstanceOrder_def split: option.splits)

text \<open>
  The store holds the text \<open>{}\<close> under both keys: each read returns the empty object,
  which is no array of strings, and applying it as a saved order throws. A text that is
  no JSON and a missing key give the empty sequence.
\<close>

theorem stored_value_returned_unchecked_witness:
  "corruptStorage HOST_ORDER_KEY = Some ''{}'' \<and>
   corruptStorage (INSTANCE_ORDER_KEY_PREFIX @ ''B'') = Some ''{}'' \<and>
   parse exampleJSON ''{}'' = Some (JObj []) \<and>
   readHostOrder exampleJSON corruptStorage = JObj [] \<and>
   readInstanceOrder exampleJSON ''B'' corruptStorage = JObj [] \<and>
   applySavedOrderJS instancesA (Json (JObj [])) = Inl TypeError \<and>
   parse exampleJSON ''[oops'' = None \<and>
   readHostOrder exampleJSON unparsableStorage = JArr [] \<and>
   readInstanceOrder exampleJSON ''B'' unparsableStorage = JArr [] \<and>
   readHostOrder exampleJSON Map.empty = JArr [] \<and>
   readInstanceOrder exampleJSON ''B'' Map.empty = JArr []"
proof -
  have p: "parse exampleJSON ''{}'' = Some (JObj [])" "parse exampleJSON ''[oops'' = None"
    by (simp_all add: exampleJSON_def textC2C1_def quoted_def)
  have h: "corruptStorage HOST_ORDER_KEY = Some ''{}''"
    "unparsableStorage HOST_ORDER_KEY = Some ''[oops''"
    by (simp_all add: corruptStorage_def unparsableStorage_def HOST_ORDER_KEY_def
          INSTANCE_ORDER_KEY_PREFIX_def)
  have i: "corruptStorage (INSTANCE_ORDER_KEY_PREFIX @ ''B'') = Some ''{}''"
    "unparsableStorage (INSTANCE_ORDER_KEY_PREFIX @ ''B'') = Some ''[oops''"
    by (simp_all add: corruptStorage_def unparsableStorage_def)
  from stored_value_returned_unchecked[where storage = corruptStorage and J = exampleJSON
         and raw = "''{}''" and v = "JObj []" and hostId = "''B''" and raw' = "''{}''" and v' = "JObj []"]
       p h i
  have 1: "readHostOrder exampleJSON corruptStorage = JObj []"
    "readInstanceOrder exampleJSON ''B'' corruptStorage = JObj []"
    by simp_all
  from stored_value_returned_unchecked[where storage = unparsableStorage and J = exampleJSON
         and hostId = "''B''"] p h i
  have 2: "readHostOrder exampleJSON unparsableStorage = JArr []"
    "readInstanceOrder exampleJSON ''B'' unparsableStorage = JArr []"
    by simp_all
  from stored_value_returned_unchecked[where storage = Map.empty and J = exampleJSON
         and hostId = "''B''"]
  have 3: "readHostOrder exampleJSON Map.empty = JArr []"
    "readInstanceOrder exampleJSON ''B'' Map.empty = JArr []"
    by simp_all
  from 1 2 3 p h i show ?thesis by (simp add: applySavedOrderJS_def)
qed

subsection \<open>Saved orders of any shape\<close>



lemma applySavedOrderJS_array:
  "keys \<noteq> [] \<Longrightarrow>
   applySavedOrderJS items (Json (JArr keys)) = Inr (sort_key (keyRank keys) items)"
proof -
  assume n: "keys \<noteq> []"
  have "\<And>x j. (\<lambda>i. newMap (entriesFrom 0 keys) (JStr i)) x = Some j \<Longrightarrow> j < length keys"
    using newMap_Some_bounds[of 0 keys] by auto
  from sortBy_sort_key[OF this] n show ?thesis
    by (simp add: applySavedOrderJS_def keyRank_def)
qed

lemma applySavedOrderJS_mset:
  "applySavedOrderJS items v = Inr R \<Longrightarrow> mset R = mset items"
proof -
  assume a: "applySavedOrderJS items v = Inr R"
  show ?thesis
  proof (cases "lengthIsZero v")
    case (Inl e)
    with a show ?thesis by (simp add: applySavedOrderJS_def)
  next
    case (Inr z)
    show ?thesis
    proof (cases z)
      case True
      with a Inr show ?thesis by (simp add: applySavedOrderJS_def)
    next
      case False
      with a Inr obtain keys where v: "v = Json (JArr keys)"
        by (auto simp: applySavedOrderJS_def split: jsValue.splits json.splits)
      with False Inr have "keys \<noteq> []" by auto
      from applySavedOrderJS_array[OF this, of items] a v show ?thesis by auto
    qed
  qed
qed

lemma applySavedOrderJS_throws_iff:
  "applySavedOrderJS items v = Inl TypeError \<longleftrightarrow>
     v = Json JNull \<or> (lengthIsZero v = Inr False \<and> (\<forall>keys. v \<noteq> Json (JArr keys)))"
  by (cases v rule: lengthIsZero.cases)
     (auto simp: applySavedOrderJS_def Let_def split: bool.splits)

lemma applySavedOrderJS_array_returns:
  "\<exists>R. applySavedOrderJS items (Json (JArr keys)) = Inr R"
  by (simp add: applySavedOrderJS_def Let_def split: bool.splits)

subsection \<open>Positions and exchanges\<close>













subsection \<open>Reordering\<close>
















lemmas applySavedOrderJS_eval = applySavedOrderJS_def newMap_def sortBy_def compareFn_def

lemmas example_defs = stateAB_def stateABC_def stateK_def withInstances_def
  hostA_def hostB_def hostC_def hostK_def instancesA_def instancesB_def instancesC_def

lemmas storage_defs = storageABC_def corruptStorage_def readInstanceOrder_def exampleJSON_def
  textC2C1_def quoted_def INSTANCE_ORDER_KEY_PREFIX_def HOST_ORDER_KEY_def Object_prototype_def






subsection \<open>The effective view\<close>

lemma mapResult_Inr:
  "mapResult f xs = Inr ys \<Longrightarrow>
   length ys = length xs \<and> (\<forall>k < length xs. f (xs ! k) = Inr (ys ! k))"
proof (induction xs arbitrary: ys)
  case Nil
  then show ?case by simp
next
  case (Cons x xs)
  from Cons.prems obtain y ys' where y: "f x = Inr y" and r: "mapResult f xs = Inr ys'"
    and ys: "ys = y # ys'"
    by (auto split: sum.splits)
  from Cons.IH[OF r] have l: "length ys' = length xs"
    and n: "\<forall>k < length xs. f (xs ! k) = Inr (ys' ! k)" by blast+
  show ?case
  proof (intro conjI allI impI)
    show "length ys = length (x # xs)" using l ys by simp
  next
    fix k assume "k < length (x # xs)"
    then show "f ((x # xs) ! k) = Inr (ys ! k)"
      using y n ys by (cases k) simp_all
  qed
qed

lemma mapResult_returns:
  "(\<forall>k < length xs. \<exists>y. f (xs ! k) = Inr y) \<Longrightarrow> \<exists>ys. mapResult f xs = Inr ys"
proof (induction xs)
  case Nil
  show ?case by simp
next
  case (Cons x xs)
  from Cons.prems have "\<exists>y. f ((x # xs) ! 0) = Inr y" by blast
  then obtain y where y: "f x = Inr y" by auto
  have "\<forall>k < length xs. \<exists>y. f (xs ! k) = Inr y"
  proof (intro allI impI)
    fix k assume "k < length xs"
    then have "Suc k < length (x # xs)" by simp
    with Cons.prems have "\<exists>y. f ((x # xs) ! Suc k) = Inr y" by blast
    then show "\<exists>y. f (xs ! k) = Inr y" by simp
  qed
  from Cons.IH[OF this] obtain ys where "mapResult f xs = Inr ys" by blast
  with y show ?case by simp
qed

lemma mergeHost_Inr:
  assumes "mergeHost wsStatus saved host = Inr m"
  shows "applySavedOrderJS (instances host) saved = Inr (instances m)"
    and "\<And>w. wsStatus = Some w \<Longrightarrow>
           m = host\<lparr>status := ws_status w,
                    memory := (if toBoolean (ws_memory w) then ws_memory w else memory host),
                    instances := instances m\<rparr>"
    and "wsStatus = None \<Longrightarrow> m = host\<lparr>instances := instances m\<rparr>"
  using assms
  by (auto simp: mergeHost_def Let_def split: option.splits sum.splits)

lemma mergeHost_returns:
  "applySavedOrderJS (instances host) saved = Inr R \<Longrightarrow> \<exists>m. mergeHost wsStatus saved host = Inr m"
  by (cases wsStatus) (simp_all add: mergeHost_def Let_def)

lemma list_of_three: "length xs = 3 \<Longrightarrow> xs = [xs ! 0, xs ! 1, xs ! 2]"
  by (auto simp: numeral_3_eq_3 length_Suc_conv)

lemmas overlay_defs = overlayAB_def entryA_def entryB_def entryH_def hostH_def stateH_def

text \<open>
  Claim C3, as stated, at a stopped host \<open>H\<close> with the memory 16 and the instances
  \<open>i1, i2\<close>, the cached instance order \<open>i2, i1\<close>, and an overlay entry for \<open>H\<close> with the
  status \<open>running\<close> and the memory 0. The entry covers the memory, and the view still
  reports the memory 16 of the host: 0 is falsy, and \<^verbatim>\<open>wsStatus.memory || host.memory\<close>
  falls back. The field \<open>instances\<close>, which the overlay does not cover, is not unchanged
  either: the view has the instances in the order \<open>i2, i1\<close>.
\<close>

theorem effective_view_overlay_counterexample:
  "mergedHosts exampleJSON (Some [''H'' \<mapsto> entryH]) stateH =
     Inr [hostH\<lparr>status := ''running'',
                instances := [\<lparr>id' = ''i2''\<rparr>, \<lparr>id' = ''i1''\<rparr>]\<rparr>] \<and>
   hosts stateH = [hostH] \<and>
   ws_memory entryH = Some (JNum 0) \<and>
   memory (hostH\<lparr>status := ''running'',
                 instances := [\<lparr>id' = ''i2''\<rparr>, \<lparr>id' = ''i1''\<rparr>]\<rparr>) = Some (JNum 16) \<and>
   instances hostH = [\<lparr>id' = ''i1''\<rparr>, \<lparr>id' = ''i2''\<rparr>]"
  by (simp add: mergedHosts_def mergeHost_def overlayEntry_def instanceOrderOf_def
      overlay_defs applySavedOrderJS_eval)

text \<open>
  Claim C3, amended. Whenever the derivation returns a view, the view is the sequence of
  the merged hosts, one for each host of the snapshot and in its place, put in the saved
  host order. If the overlay has an entry for the identifier of the host, the merged
  host is the host with the status of the entry, with the memory of the entry if that is
  truthy and its own memory if not, and with its instances put in the saved instance
  order in force for it: all other fields are unchanged. If there is no overlay, or the
  overlay has no entry for the identifier of the host, the merged host is the host with
  its instances put in that order, and every other field unchanged, status and memory
  too. The saved instance order in force is the cached order of the host, or else the
  property that the cache object inherits under the identifier of the host, or else
  the value read from the store; the instances of the merged host are the instances of
  the host, each as often as before. The derivation returns a view when the host order
  and the saved instance order in force for each host are arrays.
\<close>

theorem effective_view_overlay:
  "(mergedHosts J hostStatuses st = Inr view \<longrightarrow>
      (\<exists>merged.
         length merged = length (hosts st) \<and>
         applySavedOrderJS merged (Json (hostOrder st)) = Inr view \<and>
         mset view = mset merged \<and>
         (\<forall>k < length (hosts st).
            applySavedOrderJS (instances (hosts st ! k))
                (case instanceOrders st (id' (hosts st ! k)) of
                   Some S \<Rightarrow> Json (JArr (map JStr S))
                 | None \<Rightarrow> (case Object_prototype (id' (hosts st ! k)) of
                              Some v \<Rightarrow> v
                            | None \<Rightarrow> Json (readInstanceOrder J (id' (hosts st ! k)) (localStorage st))))
              = Inr (instances (merged ! k)) \<and>
            mset (instances (merged ! k)) = mset (instances (hosts st ! k)) \<and>
            (\<forall>entries w.
               hostStatuses = Some entries \<and> entries (id' (hosts st ! k)) = Some w \<longrightarrow>
                 merged ! k =
                   (hosts st ! k)
                     \<lparr>status := ws_status w,
                      memory := (if toBoolean (ws_memory w) then ws_memory w
                                 else memory (hosts st ! k)),
                      instances := instances (merged ! k)\<rparr>) \<and>
            (hostStatuses = None \<or>
             (\<exists>entries. hostStatuses = Some entries \<and> entries (id' (hosts st ! k)) = None) \<longrightarrow>
                 merged ! k = (hosts st ! k)\<lparr>instances := instances (merged ! k)\<rparr>)))) \<and>
   ((\<forall>k < length (hosts st).
       \<exists>keys. (case instanceOrders st (id' (hosts st ! k)) of
                 Some S \<Rightarrow> Json (JArr (map JStr S))
               | None \<Rightarrow> (case Object_prototype (id' (hosts st ! k)) of
                            Some v \<Rightarrow> v
                          | None \<Rightarrow> Json (readInstanceOrder J (id' (hosts st ! k)) (localStorage st))))
              = Json (JArr keys)) \<and>
    (\<exists>keys. hostOrder st = JArr keys)
      \<longrightarrow> (\<exists>view. mergedHosts J hostStatuses st = Inr view))"
proof (intro conjI impI)
  let ?f = "\<lambda>host. mergeHost (overlayEntry hostStatuses (id' host))
                       (instanceOrderOf J st (id' host)) host"
  assume V: "mergedHosts J hostStatuses st = Inr view"
  then obtain merged where m: "mapResult ?f (hosts st) = Inr merged"
    and s: "applySavedOrderJS merged (Json (hostOrder st)) = Inr view"
    by (auto simp: mergedHosts_def split: sum.splits)
  from mapResult_Inr[OF m] have l: "length merged = length (hosts st)"
    and n: "\<forall>k < length (hosts st). ?f (hosts st ! k) = Inr (merged ! k)" by blast+
  show "\<exists>merged.
         length merged = length (hosts st) \<and>
         applySavedOrderJS merged (Json (hostOrder st)) = Inr view \<and>
         mset view = mset merged \<and>
         (\<forall>k < length (hosts st).
            applySavedOrderJS (instances (hosts st ! k))
                (case instanceOrders st (id' (hosts st ! k)) of
                   Some S \<Rightarrow> Json (JArr (map JStr S))
                 | None \<Rightarrow> (case Object_prototype (id' (hosts st ! k)) of
                              Some v \<Rightarrow> v
                            | None \<Rightarrow> Json (readInstanceOrder J (id' (hosts st ! k)) (localStorage st))))
              = Inr (instances (merged ! k)) \<and>
            mset (instances (merged ! k)) = mset (instances (hosts st ! k)) \<and>
            (\<forall>entries w.
               hostStatuses = Some entries \<and> entries (id' (hosts st ! k)) = Some w \<longrightarrow>
                 merged ! k =
                   (hosts st ! k)
                     \<lparr>status := ws_status w,
                      memory := (if toBoolean (ws_memory w) then ws_memory w
                                 else memory (hosts st ! k)),
                      instances := instances (merged ! k)\<rparr>) \<and>
            (hostStatuses = None \<or>
             (\<exists>entries. hostStatuses = Some entries \<and> entries (id' (hosts st ! k)) = None) \<longrightarrow>
                 merged ! k = (hosts st ! k)\<lparr>instances := instances (merged ! k)\<rparr>))"
  proof (intro exI[of _ merged] conjI allI impI)
    show "length merged = length (hosts st)" by (rule l)
    show "applySavedOrderJS merged (Json (hostOrder st)) = Inr view" by (rule s)
    show "mset view = mset merged" by (rule applySavedOrderJS_mset[OF s])
  next
    fix k assume k: "k < length (hosts st)"
    with n have e: "?f (hosts st ! k) = Inr (merged ! k)" by blast
    from mergeHost_Inr(1)[OF e]
    show i: "applySavedOrderJS (instances (hosts st ! k))
                (case instanceOrders st (id' (hosts st ! k)) of
                   Some S \<Rightarrow> Json (JArr (map JStr S))
                 | None \<Rightarrow> (case Object_prototype (id' (hosts st ! k)) of
                              Some v \<Rightarrow> v
                            | None \<Rightarrow> Json (readInstanceOrder J (id' (hosts st ! k)) (localStorage st))))
              = Inr (instances (merged ! k))"
      by (simp add: instanceOrderOf_def)
    show "mset (instances (merged ! k)) = mset (instances (hosts st ! k))"
      by (rule applySavedOrderJS_mset[OF i])
  next
    fix k entries w
    assume k: "k < length (hosts st)"
      and a: "hostStatuses = Some entries \<and> entries (id' (hosts st ! k)) = Some w"
    from k n have e: "?f (hosts st ! k) = Inr (merged ! k)" by blast
    from a have "overlayEntry hostStatuses (id' (hosts st ! k)) = Some w"
      by (simp add: overlayEntry_def)
    from mergeHost_Inr(2)[OF e this]
    show "merged ! k =
                   (hosts st ! k)
                     \<lparr>status := ws_status w,
                      memory := (if toBoolean (ws_memory w) then ws_memory w
                                 else memory (hosts st ! k)),
                      instances := instances (merged ! k)\<rparr>" .
  next
    fix k
    assume k: "k < length (hosts st)"
      and a: "hostStatuses = None \<or>
             (\<exists>entries. hostStatuses = Some entries \<and> entries (id' (hosts st ! k)) = None)"
    from k n have e: "?f (hosts st ! k) = Inr (merged ! k)" by blast
    from a have "overlayEntry hostStatuses (id' (hosts st ! k)) = None"
      by (auto simp: overlayEntry_def)
    from mergeHost_Inr(3)[OF e this]
    show "merged ! k = (hosts st ! k)\<lparr>instances := instances (merged ! k)\<rparr>" .
  qed
next
  let ?f = "\<lambda>host. mergeHost (overlayEntry hostStatuses (id' host))
                       (instanceOrderOf J st (id' host)) host"
  assume a: "(\<forall>k < length (hosts st).
       \<exists>keys. (case instanceOrders st (id' (hosts st ! k)) of
                 Some S \<Rightarrow> Json (JArr (map JStr S))
               | None \<Rightarrow> (case Object_prototype (id' (hosts st ! k)) of
                            Some v \<Rightarrow> v
                          | None \<Rightarrow> Json (readInstanceOrder J (id' (hosts st ! k)) (localStorage st))))
              = Json (JArr keys)) \<and>
    (\<exists>keys. hostOrder st = JArr keys)"
  have "\<forall>k < length (hosts st). \<exists>m. ?f (hosts st ! k) = Inr m"
  proof (intro allI impI)
    fix k assume "k < length (hosts st)"
    with a obtain keys where "instanceOrderOf J st (id' (hosts st ! k)) = Json (JArr keys)"
      unfolding instanceOrderOf_def by blast
    with applySavedOrderJS_array_returns[of "instances (hosts st ! k)" keys]
    obtain R where "applySavedOrderJS (instances (hosts st ! k))
        (instanceOrderOf J st (id' (hosts st ! k))) = Inr R" by auto
    from mergeHost_returns[OF this]
    show "\<exists>m. ?f (hosts st ! k) = Inr m" .
  qed
  from mapResult_returns[OF this] obtain merged where m: "mapResult ?f (hosts st) = Inr merged"
    by blast
  from a obtain keys where "hostOrder st = JArr keys" by blast
  with applySavedOrderJS_array_returns[of merged keys]
  obtain view where "applySavedOrderJS merged (Json (hostOrder st)) = Inr view" by auto
  with m show "\<exists>view. mergedHosts J hostStatuses st = Inr view"
    by (simp add: mergedHosts_def)
qed

text \<open>
  Three hosts and an overlay with an entry for \<open>A\<close>, a status and no memory, an entry
  for \<open>B\<close>, a status and the memory 32, and no entry for \<open>C\<close>. The view has \<open>C\<close> first,
  as it came and with its instances in the stored order \<open>c2, c1\<close>; then \<open>A\<close> with the
  status of its entry, its own memory 16 and its instances in the cached order; then
  \<open>B\<close> with the status and the memory of its entry. For the host \<open>constructor\<close> the
  derivation throws.
\<close>

theorem effective_view_overlay_witness:
  "mergedHosts exampleJSON (Some overlayAB) stateABC =
     Inr [(withInstances hostC instancesC)
            \<lparr>instances := [\<lparr>id' = ''c2''\<rparr>, \<lparr>id' = ''c1''\<rparr>]\<rparr>,
          (withInstances hostA instancesA)
            \<lparr>status := ''busy'',
             instances := [\<lparr>id' = ''i3''\<rparr>, \<lparr>id' = ''i1''\<rparr>, \<lparr>id' = ''i2''\<rparr>]\<rparr>,
          (withInstances hostB instancesB)
            \<lparr>status := ''running'', memory := Some (JNum 32)\<rparr>] \<and>
   overlayAB ''A'' = Some entryA \<and> ws_status entryA = ''busy'' \<and> ws_memory entryA = None \<and>
   memory hostA = Some (JNum 16) \<and>
   overlayAB ''B'' = Some entryB \<and> ws_status entryB = ''running'' \<and>
   ws_memory entryB = Some (JNum 32) \<and>
   overlayAB ''C'' = None \<and>
   mergedHosts exampleJSON None stateK = Inl TypeError"
proof -
  let ?sv = "\<lambda>k. (case instanceOrders stateABC (id' (hosts stateABC ! k)) of
                   Some S \<Rightarrow> Json (JArr (map JStr S))
                 | None \<Rightarrow> (case Object_prototype (id' (hosts stateABC ! k)) of
                              Some v \<Rightarrow> v
                            | None \<Rightarrow> Json (readInstanceOrder exampleJSON (id' (hosts stateABC ! k))
                                              (localStorage stateABC))))"
  have len: "length (hosts stateABC) = 3" by (simp add: stateABC_def)
  have h0: "hosts stateABC ! 0 = withInstances hostA instancesA"
    and h1: "hosts stateABC ! 1 = withInstances hostB instancesB"
    and h2: "hosts stateABC ! 2 = withInstances hostC instancesC"
    and h1': "hosts stateABC ! Suc 0 = withInstances hostB instancesB"
    by (simp_all add: stateABC_def)
  have ids: "id' (withInstances hostA instancesA) = ''A''"
    "id' (withInstances hostB instancesB) = ''B''"
    "id' (withInstances hostC instancesC) = ''C''"
    by (simp_all add: example_defs)
  have cA: "instanceOrders stateABC ''A'' = Some [''i3'', ''i1'', ''i2'']"
    and cB: "instanceOrders stateABC ''B'' = None"
    and cC: "instanceOrders stateABC ''C'' = None"
    by (simp_all add: example_defs)
  have pB: "Object_prototype ''B'' = None" and pC: "Object_prototype ''C'' = None"
    by (simp_all add: Object_prototype_def)
  have rB: "readInstanceOrder exampleJSON ''B'' (localStorage stateABC) = JArr [JNum 1, JNum 2]"
    and rC: "readInstanceOrder exampleJSON ''C'' (localStorage stateABC) = JArr [JStr ''c2'', JStr ''c1'']"
    by (simp_all add: stateABC_def storage_defs)
  have sv0: "?sv 0 = Json (JArr [JStr ''i3'', JStr ''i1'', JStr ''i2''])"
    and sv1: "?sv 1 = Json (JArr [JNum 1, JNum 2])"
    and sv2: "?sv 2 = Json (JArr [JStr ''c2'', JStr ''c1''])"
    by (simp_all add: h0 h1 h1' h2 ids cA cB cC pB pC rB rC)
  have ho: "hostOrder stateABC = JArr [JStr ''C'', JStr ''A'']" by (simp add: stateABC_def)
  have three: "\<And>k::nat. k < 3 \<Longrightarrow> k = 0 \<or> k = 1 \<or> k = 2" by arith
  have hyp: "\<forall>k < length (hosts stateABC). \<exists>keys. ?sv k = Json (JArr keys)"
  proof (intro allI impI)
    fix k assume "k < length (hosts stateABC)"
    with len three have "k = 0 \<or> k = 1 \<or> k = 2" by simp
    with sv0 sv1 sv2 show "\<exists>keys. ?sv k = Json (JArr keys)" by blast
  qed
  from effective_view_overlay[where J = exampleJSON and hostStatuses = "Some overlayAB"
      and st = stateABC, THEN conjunct2] hyp ho
  obtain view where V: "mergedHosts exampleJSON (Some overlayAB) stateABC = Inr view"
    by blast
  from effective_view_overlay[where J = exampleJSON and hostStatuses = "Some overlayAB"
      and st = stateABC and view = view, THEN conjunct1] V
  obtain merged where l: "length merged = length (hosts stateABC)"
    and s: "applySavedOrderJS merged (Json (hostOrder stateABC)) = Inr view"
    and p: "\<forall>k < length (hosts stateABC).
            applySavedOrderJS (instances (hosts stateABC ! k)) (?sv k) = Inr (instances (merged ! k)) \<and>
            mset (instances (merged ! k)) = mset (instances (hosts stateABC ! k)) \<and>
            (\<forall>entries w.
               Some overlayAB = Some entries \<and> entries (id' (hosts stateABC ! k)) = Some w \<longrightarrow>
                 merged ! k =
                   (hosts stateABC ! k)
                     \<lparr>status := ws_status w,
                      memory := (if toBoolean (ws_memory w) then ws_memory w
                                 else memory (hosts stateABC ! k)),
                      instances := instances (merged ! k)\<rparr>) \<and>
            (Some overlayAB = None \<or>
             (\<exists>entries. Some overlayAB = Some entries \<and> entries (id' (hosts stateABC ! k)) = None) \<longrightarrow>
                 merged ! k = (hosts stateABC ! k)\<lparr>instances := instances (merged ! k)\<rparr>)"
    by blast
  have eA: "overlayAB ''A'' = Some entryA" and eB: "overlayAB ''B'' = Some entryB"
    and eC: "overlayAB ''C'' = None"
    by (simp_all add: overlayAB_def)
  have oA: "applySavedOrderJS (instances (withInstances hostA instancesA))
        (Json (JArr [JStr ''i3'', JStr ''i1'', JStr ''i2''])) = Inr [\<lparr>id' = ''i3''\<rparr>, \<lparr>id' = ''i1''\<rparr>, \<lparr>id' = ''i2''\<rparr>]"
    and oB: "applySavedOrderJS (instances (withInstances hostB instancesB))
        (Json (JArr [JNum 1, JNum 2])) = Inr [\<lparr>id' = ''j1''\<rparr>, \<lparr>id' = ''j2''\<rparr>, \<lparr>id' = ''j3''\<rparr>]"
    and oC: "applySavedOrderJS (instances (withInstances hostC instancesC))
        (Json (JArr [JStr ''c2'', JStr ''c1''])) = Inr [\<lparr>id' = ''c2''\<rparr>, \<lparr>id' = ''c1''\<rparr>]"
    by (simp_all add: example_defs applySavedOrderJS_eval)
  have k0: "0 < length (hosts stateABC)" and k1: "Suc 0 < length (hosts stateABC)"
    and k2: "2 < length (hosts stateABC)" by (simp_all add: len)
  from p[rule_format, OF k0] have i0: "instances (merged ! 0) = [\<lparr>id' = ''i3''\<rparr>, \<lparr>id' = ''i1''\<rparr>, \<lparr>id' = ''i2''\<rparr>]"
    by (simp add: h0 ids cA oA)
  from p[rule_format, OF k1] have i1: "instances (merged ! Suc 0) = [\<lparr>id' = ''j1''\<rparr>, \<lparr>id' = ''j2''\<rparr>, \<lparr>id' = ''j3''\<rparr>]"
    by (simp add: h1 h1' ids cB pB rB oB)
  from p[rule_format, OF k2] have i2: "instances (merged ! 2) = [\<lparr>id' = ''c2''\<rparr>, \<lparr>id' = ''c1''\<rparr>]"
    by (simp add: h2 ids cC pC rC oC)
  from p[rule_format, OF k0] have m0: "merged ! 0 =
      (withInstances hostA instancesA)
        \<lparr>status := ''busy'',
         instances := [\<lparr>id' = ''i3''\<rparr>, \<lparr>id' = ''i1''\<rparr>, \<lparr>id' = ''i2''\<rparr>]\<rparr>"
    using eA by (simp add: h0 ids i0 entryA_def)
  from p[rule_format, OF k1] have m1: "merged ! Suc 0 =
      (withInstances hostB instancesB)\<lparr>status := ''running'', memory := Some (JNum 32)\<rparr>"
    using eB by (simp add: h1 h1' ids i1 entryB_def example_defs)
  from p[rule_format, OF k2] have m2: "merged ! 2 =
      (withInstances hostC instancesC)\<lparr>instances := [\<lparr>id' = ''c2''\<rparr>, \<lparr>id' = ''c1''\<rparr>]\<rparr>"
    using eC by (simp add: h2 ids i2)
  from l len have "merged = [merged ! 0, merged ! 1, merged ! 2]"
    by (intro list_of_three) simp
  with m0 m1 m2 have "merged =
     [(withInstances hostA instancesA)
        \<lparr>status := ''busy'',
         instances := [\<lparr>id' = ''i3''\<rparr>, \<lparr>id' = ''i1''\<rparr>, \<lparr>id' = ''i2''\<rparr>]\<rparr>,
      (withInstances hostB instancesB)\<lparr>status := ''running'', memory := Some (JNum 32)\<rparr>,
      (withInstances hostC instancesC)\<lparr>instances := [\<lparr>id' = ''c2''\<rparr>, \<lparr>id' = ''c1''\<rparr>]\<rparr>]"
    by simp
  with s ho have "view =
     [(withInstances hostC instancesC)
            \<lparr>instances := [\<lparr>id' = ''c2''\<rparr>, \<lparr>id' = ''c1''\<rparr>]\<rparr>,
          (withInstances hostA instancesA)
            \<lparr>status := ''busy'',
             instances := [\<lparr>id' = ''i3''\<rparr>, \<lparr>id' = ''i1''\<rparr>, \<lparr>id' = ''i2''\<rparr>]\<rparr>,
          (withInstances hostB instancesB)
            \<lparr>status := ''running'', memory := Some (JNum 32)\<rparr>]"
    by (simp add: example_defs applySavedOrderJS_eval)
  with V have 1: "mergedHosts exampleJSON (Some overlayAB) stateABC =
     Inr [(withInstances hostC instancesC)
            \<lparr>instances := [\<lparr>id' = ''c2''\<rparr>, \<lparr>id' = ''c1''\<rparr>]\<rparr>,
          (withInstances hostA instancesA)
            \<lparr>status := ''busy'',
             instances := [\<lparr>id' = ''i3''\<rparr>, \<lparr>id' = ''i1''\<rparr>, \<lparr>id' = ''i2''\<rparr>]\<rparr>,
          (withInstances hostB instancesB)
            \<lparr>status := ''running'', memory := Some (JNum 32)\<rparr>]"
    by simp
  have K: "mergedHosts exampleJSON None stateK = Inl TypeError"
    by (simp add: mergedHosts_def mergeHost_def overlayEntry_def instanceOrderOf_def
        example_defs Object_prototype_def applySavedOrderJS_def)
  have f: "ws_status entryA = ''busy''" "ws_memory entryA = None" "memory hostA = Some (JNum 16)"
    "ws_status entryB = ''running''" "ws_memory entryB = Some (JNum 32)"
    by (simp_all add: entryA_def entryB_def hostA_def)
  from 1 eA eB eC K f show ?thesis by simp
qed

end
